theory Spec2Isabelle
  imports Main "HOL-Library.Word"
begin

unbundle bit_operations_syntax

section \<open>Bytes, strings and errors\<close>

text \<open>
  A Go \<^verbatim>\<open>[]byte\<close> is a list of 8-bit words and a Go \<^verbatim>\<open>string\<close> is a list of
  characters, each one byte.  The conversions \<^verbatim>\<open>[]byte(s)\<close> and \<^verbatim>\<open>string(b)\<close> copy the
  bytes unchanged.
\<close>

type_synonym byte = "8 word"
type_synonym bytes = "byte list"

definition bytes_of :: "string \<Rightarrow> bytes" where
  "bytes_of s = map (\<lambda>c. word_of_nat (of_char c)) s"

definition string_of :: "bytes \<Rightarrow> string" where
  "string_of b = map (\<lambda>w. char_of (unat w)) b"

text \<open>The operations of the file system that can fail, each with its path.\<close>

datatype fs_op =
    OpMkdirAll string
  | OpWriteFile string
  | OpReadFile string
  | OpStat string
  | OpRemove string

text \<open>
  Every error value the program creates or receives from a library is a constructor.
  The two \<open>Panic\<close> constructors stand for the run-time panics of \<^verbatim>\<open>cipher.AEAD\<close>.
\<close>

datatype error =
    NoDataToEncrypt
  | KeySizeError nat
  | RandReadError
  | MalformedCiphertext
  | MessageAuthenticationFailed
  | CorruptInputError
  | PanicIncorrectNonceLength
  | PanicMessageTooLarge
  | InvalidCredentialsOrCorruptedKey
  | NotLoggedIn
  | NotAuthenticated
  | RequestError
  | TransportError
  | AuthenticationFailed
  | RegistrationFailed
  | BodyReadError
  | ParseFailure
  | MissingRequiredData
  | NoUserID
  | NoEncryptedSymmetricKey
  | FailedToCreatePaste
  | PasteNotFoundOrAccessDenied
  | NoSavedCredentials
  | InvalidCredentialsMissingEmail
  | InvalidCredentialsMissingPasswordHash
  | NoActiveSession
  | InvalidSessionData
  | UnmarshalError
  | FsError fs_op

section \<open>Library: big-endian words\<close>

definition word_bytes :: "nat \<Rightarrow> 'a::len word \<Rightarrow> bytes" where
  "word_bytes n w = map (\<lambda>i. ucast (drop_bit (8 * (n - 1 - i)) w)) [0..<n]"

definition bytes_word :: "bytes \<Rightarrow> 'a::len word" where
  "bytes_word bs = foldl (\<lambda>acc b. push_bit 8 acc OR ucast b) 0 bs"

section \<open>Library: \<^verbatim>\<open>encoding/base64\<close>, the standard padded encoding\<close>

definition b64_alphabet :: string where
  "b64_alphabet = ''ABCDEFGHIJKLMNOPQRSTUVWXYZabcdefghijklmnopqrstuvwxyz0123456789+/''"

definition b64_char :: "nat \<Rightarrow> char" where
  "b64_char n = b64_alphabet ! n"

fun index_of :: "'a \<Rightarrow> 'a list \<Rightarrow> nat option" where
  "index_of x [] = None"
| "index_of x (y # ys) = (if x = y then Some 0 else map_option Suc (index_of x ys))"

definition b64_value :: "char \<Rightarrow> nat option" where
  "b64_value c = index_of c b64_alphabet"

definition b64_pad :: char where
  "b64_pad = CHR ''=''"

text \<open>\<^verbatim>\<open>EncodeToString\<close>: three bytes are joined into a 24-bit value whose four
  6-bit digits select the characters; a last group of one or two bytes is filled with
  zero bits and padded with \<open>=\<close>.\<close>

definition b64_sextet :: "nat \<Rightarrow> byte \<Rightarrow> byte \<Rightarrow> byte \<Rightarrow> nat" where
  "b64_sextet shift a b c = (unat a * 65536 + unat b * 256 + unat c) div 2 ^ shift mod 64"

fun b64_encode :: "bytes \<Rightarrow> string" where
  "b64_encode [] = []"
| "b64_encode [a] =
     [b64_char (b64_sextet 18 a 0 0), b64_char (b64_sextet 12 a 0 0), b64_pad, b64_pad]"
| "b64_encode [a, b] =
     [b64_char (b64_sextet 18 a b 0), b64_char (b64_sextet 12 a b 0),
      b64_char (b64_sextet 6 a b 0), b64_pad]"
| "b64_encode (a # b # c # rest) =
     [b64_char (b64_sextet 18 a b c), b64_char (b64_sextet 12 a b c),
      b64_char (b64_sextet 6 a b c), b64_char (b64_sextet 0 a b c)] @ b64_encode rest"

text \<open>\<^verbatim>\<open>DecodeString\<close>: carriage returns and line feeds are skipped; the rest is read in
  groups of four characters, padding is accepted in the last group only, and the bits of
  the last group that do not fill a byte are dropped.\<close>

definition b64_octets :: "nat \<Rightarrow> nat \<Rightarrow> nat \<Rightarrow> nat \<Rightarrow> bytes" where
  "b64_octets d0 d1 d2 d3 =
     (let v = d0 * 262144 + d1 * 4096 + d2 * 64 + d3
      in [word_of_nat (v div 65536), word_of_nat (v div 256), word_of_nat v])"

fun b64_decode_groups :: "string \<Rightarrow> bytes option" where
  "b64_decode_groups [] = Some []"
| "b64_decode_groups (c0 # c1 # c2 # c3 # rest) =
     (if rest = [] \<and> c3 = b64_pad then
        (if c2 = b64_pad then
           (case (b64_value c0, b64_value c1) of
              (Some d0, Some d1) \<Rightarrow> Some (take 1 (b64_octets d0 d1 0 0))
            | _ \<Rightarrow> None)
         else
           (case (b64_value c0, b64_value c1, b64_value c2) of
              (Some d0, Some d1, Some d2) \<Rightarrow> Some (take 2 (b64_octets d0 d1 d2 0))
            | _ \<Rightarrow> None))
      else
        (case (b64_value c0, b64_value c1, b64_value c2, b64_value c3) of
           (Some d0, Some d1, Some d2, Some d3) \<Rightarrow>
             map_option (\<lambda>tl. b64_octets d0 d1 d2 d3 @ tl) (b64_decode_groups rest)
         | _ \<Rightarrow> None))"
| "b64_decode_groups _ = None"

definition b64_decode :: "string \<Rightarrow> error + bytes" where
  "b64_decode s =
     (case b64_decode_groups (filter (\<lambda>c. c \<noteq> CHR 0x0D \<and> c \<noteq> CHR 0x0A) s) of
        None \<Rightarrow> Inl CorruptInputError
      | Some bs \<Rightarrow> Inr bs)"

section \<open>Library: hash and block cipher primitives\<close>

text \<open>
  SHA-256 (inside HMAC) and the AES block function are not computed here.  They are the
  two fields of a parameter that every cryptographic function takes; the types fix the
  sizes of their results (32 and 16 bytes), and nothing else is assumed of them.
\<close>

record primitives =
  hmac_sha256 :: "bytes \<Rightarrow> bytes \<Rightarrow> 256 word"
  aes_block :: "bytes \<Rightarrow> 128 word \<Rightarrow> 128 word"

subsection \<open>\<^verbatim>\<open>pbkdf2.Key\<close>\<close>

fun pbkdf2_rounds :: "(bytes \<Rightarrow> 256 word) \<Rightarrow> nat \<Rightarrow> 256 word \<Rightarrow> 256 word \<Rightarrow> 256 word" where
  "pbkdf2_rounds prf 0 u t = t"
| "pbkdf2_rounds prf (Suc n) u t =
     (let u' = prf (word_bytes 32 u) in pbkdf2_rounds prf n u' (t XOR u'))"

definition pbkdf2_block :: "(bytes \<Rightarrow> 256 word) \<Rightarrow> bytes \<Rightarrow> nat \<Rightarrow> nat \<Rightarrow> bytes" where
  "pbkdf2_block prf salt iter i =
     (let u1 = prf (salt @ word_bytes 4 (word_of_nat i :: 32 word))
      in word_bytes 32 (pbkdf2_rounds prf (iter - 1) u1 u1))"

definition pbkdf2_Key :: "primitives \<Rightarrow> bytes \<Rightarrow> bytes \<Rightarrow> nat \<Rightarrow> nat \<Rightarrow> bytes" where
  "pbkdf2_Key P password salt iter keyLen =
     (let numBlocks = (keyLen + 32 - 1) div 32
      in take keyLen
           (concat (map (pbkdf2_block (hmac_sha256 P password) salt iter) [1..<Suc numBlocks])))"

subsection \<open>\<^verbatim>\<open>rand.Read\<close>\<close>

text \<open>The entropy source is the list of bytes it will still deliver; a read of \<open>n\<close>
  bytes fails when fewer are left.\<close>

definition rand_Read :: "nat \<Rightarrow> bytes \<Rightarrow> (error + bytes) \<times> bytes" where
  "rand_Read n ent =
     (if length ent < n then (Inl RandReadError, ent) else (Inr (take n ent), drop n ent))"

subsection \<open>\<^verbatim>\<open>aes.NewCipher\<close> and \<^verbatim>\<open>cipher.NewGCM\<close>\<close>

definition aes_NewCipher :: "primitives \<Rightarrow> bytes \<Rightarrow> error + (128 word \<Rightarrow> 128 word)" where
  "aes_NewCipher P key =
     (if length key = 16 \<or> length key = 24 \<or> length key = 32 then Inr (aes_block P key)
      else Inl (KeySizeError (length key)))"

definition gcm_NonceSize :: nat where
  "gcm_NonceSize = 12"

definition gcm_TagSize :: nat where
  "gcm_TagSize = 16"

definition gcm_MaxPlaintext :: nat where
  "gcm_MaxPlaintext = (2 ^ 32 - 2) * 16"

definition gcm_R :: "128 word" where
  "gcm_R = push_bit 120 0xE1"

text \<open>Multiplication in GF(2^128): bit 127 of a block is its first bit.\<close>

fun gcm_mul_loop :: "nat \<Rightarrow> 128 word \<Rightarrow> 128 word \<Rightarrow> 128 word \<Rightarrow> 128 word" where
  "gcm_mul_loop 0 x v z = z"
| "gcm_mul_loop (Suc n) x v z =
     gcm_mul_loop n x
       (if bit v 0 then drop_bit 1 v XOR gcm_R else drop_bit 1 v)
       (if bit x n then z XOR v else z)"

definition gcm_mul :: "128 word \<Rightarrow> 128 word \<Rightarrow> 128 word" where
  "gcm_mul x y = gcm_mul_loop 128 x y 0"

definition ghash :: "128 word \<Rightarrow> 128 word list \<Rightarrow> 128 word" where
  "ghash h blocks = foldl (\<lambda>y x. gcm_mul (y XOR x) h) 0 blocks"

fun gcm_blocks :: "bytes \<Rightarrow> 128 word list" where
  "gcm_blocks bs =
     (if bs = [] then []
      else bytes_word (take 16 bs @ replicate (16 - length bs) 0) # gcm_blocks (drop 16 bs))"

definition gcm_lengths :: "bytes \<Rightarrow> bytes \<Rightarrow> 128 word" where
  "gcm_lengths aad ct = push_bit 64 (word_of_nat (8 * length aad)) OR word_of_nat (8 * length ct)"

definition gcm_counter0 :: "bytes \<Rightarrow> 128 word" where
  "gcm_counter0 nonce = bytes_word (nonce @ [0, 0, 0, 1])"

definition gcm_inc32 :: "128 word \<Rightarrow> 128 word" where
  "gcm_inc32 c = (c AND NOT (mask 32)) OR ((c + 1) AND mask 32)"

fun gcm_counterCrypt :: "(128 word \<Rightarrow> 128 word) \<Rightarrow> 128 word \<Rightarrow> bytes \<Rightarrow> bytes" where
  "gcm_counterCrypt blk ctr data =
     (if data = [] then []
      else map2 (XOR) (take 16 data) (word_bytes 16 (blk ctr))
           @ gcm_counterCrypt blk (gcm_inc32 ctr) (drop 16 data))"

declare gcm_blocks.simps [simp del]

declare gcm_counterCrypt.simps [simp del]

definition gcm_auth :: "(128 word \<Rightarrow> 128 word) \<Rightarrow> bytes \<Rightarrow> bytes \<Rightarrow> bytes \<Rightarrow> bytes" where
  "gcm_auth blk nonce ct aad =
     word_bytes 16
       (ghash (blk 0) (gcm_blocks aad @ gcm_blocks ct @ [gcm_lengths aad ct])
        XOR blk (gcm_counter0 nonce))"

text \<open>\<^verbatim>\<open>Seal(dst, nonce, plaintext, additionalData)\<close> appends ciphertext and tag to
  \<open>dst\<close>.\<close>

definition gcm_Seal ::
  "(128 word \<Rightarrow> 128 word) \<Rightarrow> bytes \<Rightarrow> bytes \<Rightarrow> bytes \<Rightarrow> bytes \<Rightarrow> error + bytes" where
  "gcm_Seal blk dst nonce plaintext aad =
     (if length nonce \<noteq> gcm_NonceSize then Inl PanicIncorrectNonceLength
      else if gcm_MaxPlaintext < length plaintext then Inl PanicMessageTooLarge
      else
        (let ct = gcm_counterCrypt blk (gcm_inc32 (gcm_counter0 nonce)) plaintext
         in Inr (dst @ ct @ gcm_auth blk nonce ct aad)))"

text \<open>\<^verbatim>\<open>Open(dst, nonce, ciphertext, additionalData)\<close> recomputes the tag over the
  ciphertext and releases the plaintext only when it equals the tag received.\<close>

definition gcm_Open ::
  "(128 word \<Rightarrow> 128 word) \<Rightarrow> bytes \<Rightarrow> bytes \<Rightarrow> bytes \<Rightarrow> bytes \<Rightarrow> error + bytes" where
  "gcm_Open blk dst nonce ciphertext aad =
     (if length nonce \<noteq> gcm_NonceSize then Inl PanicIncorrectNonceLength
      else if length ciphertext < gcm_TagSize then Inl MessageAuthenticationFailed
      else if gcm_MaxPlaintext + gcm_TagSize < length ciphertext
        then Inl MessageAuthenticationFailed
      else
        (let tag = drop (length ciphertext - gcm_TagSize) ciphertext;
             ct = take (length ciphertext - gcm_TagSize) ciphertext
         in if gcm_auth blk nonce ct aad \<noteq> tag then Inl MessageAuthenticationFailed
            else Inr (dst @ gcm_counterCrypt blk (gcm_inc32 (gcm_counter0 nonce)) ct)))"

text \<open>The comparison that \<^verbatim>\<open>Open\<close> makes: the ciphertext ends with a tag, and it is
  the tag computed over what precedes it.\<close>

definition gcm_tag_matches :: "(128 word \<Rightarrow> 128 word) \<Rightarrow> bytes \<Rightarrow> bytes \<Rightarrow> bytes \<Rightarrow> bool" where
  "gcm_tag_matches blk nonce ciphertext aad \<longleftrightarrow>
     gcm_TagSize \<le> length ciphertext
     \<and> gcm_auth blk nonce (take (length ciphertext - gcm_TagSize) ciphertext) aad
         = drop (length ciphertext - gcm_TagSize) ciphertext"

section \<open>Package \<^verbatim>\<open>crypto\<close>\<close>

definition normalizeEmail :: "string \<Rightarrow> string" where
  "normalizeEmail email = ''pastepal:'' @ email"

definition DeriveKeyFromPassword :: "primitives \<Rightarrow> string \<Rightarrow> string \<Rightarrow> error + bytes" where
  "DeriveKeyFromPassword P password email =
     (let salt = normalizeEmail email;
          masterKey = pbkdf2_Key P (bytes_of password) (bytes_of salt) 100000 32
      in Inr masterKey)"

definition GenerateSymmetricKey :: "bytes \<Rightarrow> (error + bytes) \<times> bytes" where
  "GenerateSymmetricKey ent =
     (case rand_Read 32 ent of
        (Inl err, ent') \<Rightarrow> (Inl err, ent')
      | (Inr key, ent') \<Rightarrow> (Inr key, ent'))"

definition encrypt :: "primitives \<Rightarrow> bytes \<Rightarrow> bytes \<Rightarrow> bytes \<Rightarrow> (error + bytes) \<times> bytes" where
  "encrypt P data key ent =
     (case aes_NewCipher P key of
        Inl err \<Rightarrow> (Inl err, ent)
      | Inr block \<Rightarrow>
          (case rand_Read gcm_NonceSize ent of
             (Inl err, ent') \<Rightarrow> (Inl err, ent')
           | (Inr nonce, ent') \<Rightarrow> (gcm_Seal block nonce nonce data [], ent')))"

definition decrypt :: "primitives \<Rightarrow> bytes \<Rightarrow> bytes \<Rightarrow> error + bytes" where
  "decrypt P data key =
     (case aes_NewCipher P key of
        Inl err \<Rightarrow> Inl err
      | Inr block \<Rightarrow>
          if length data < gcm_NonceSize then Inl MalformedCiphertext
          else
            (let nonce = take gcm_NonceSize data; ciphertext = drop gcm_NonceSize data
             in gcm_Open block [] nonce ciphertext []))"

definition EncryptSymmetricKey ::
  "primitives \<Rightarrow> bytes \<Rightarrow> bytes \<Rightarrow> bytes \<Rightarrow> (error + string) \<times> bytes" where
  "EncryptSymmetricKey P symmetricKey masterKey ent =
     (case encrypt P symmetricKey masterKey ent of
        (Inl err, ent') \<Rightarrow> (Inl err, ent')
      | (Inr encrypted, ent') \<Rightarrow> (Inr (b64_encode encrypted), ent'))"

definition DecryptSymmetricKey :: "primitives \<Rightarrow> string \<Rightarrow> bytes \<Rightarrow> error + bytes" where
  "DecryptSymmetricKey P encryptedKeyBase64 masterKey =
     (case b64_decode encryptedKeyBase64 of
        Inl err \<Rightarrow> Inl err
      | Inr encryptedKey \<Rightarrow> decrypt P encryptedKey masterKey)"

definition EncryptData :: "primitives \<Rightarrow> bytes \<Rightarrow> bytes \<Rightarrow> bytes \<Rightarrow> (error + string) \<times> bytes" where
  "EncryptData P data symmetricKey ent =
     (if length data = 0 then (Inl NoDataToEncrypt, ent)
      else
        (case encrypt P data symmetricKey ent of
           (Inl err, ent') \<Rightarrow> (Inl err, ent')
         | (Inr encrypted, ent') \<Rightarrow> (Inr (b64_encode encrypted), ent')))"

definition DecryptData :: "primitives \<Rightarrow> string \<Rightarrow> bytes \<Rightarrow> error + bytes" where
  "DecryptData P encryptedDataBase64 symmetricKey =
     (case b64_decode encryptedDataBase64 of
        Inl err \<Rightarrow> Inl err
      | Inr encryptedData \<Rightarrow> decrypt P encryptedData symmetricKey)"

section \<open>Package \<^verbatim>\<open>models\<close>\<close>

text \<open>A \<^verbatim>\<open>time.Time\<close> is a number of seconds; the zero time is \<open>0\<close>.  Field names
  carry the name of their struct, since several structs share field names.\<close>

type_synonym time = nat

record User =
  User_ID :: string
  User_Email :: string
  User_EncryptedSymmetricKey :: string
  User_CreatedAt :: time

record RegistrationData =
  Reg_Email :: string
  Reg_PasswordHash :: string
  Reg_EncryptedSymmetricKey :: string

record LoginRequest =
  Req_Email :: string
  Req_PasswordHash :: string

record UserResponse =
  UR_ID :: string
  UR_Email :: string
  UR_CreatedAt :: time

record LoginResponse =
  Resp_User :: UserResponse
  Resp_AuthToken :: string
  Resp_EncryptedSymmetricKey :: string
  Resp_Success :: bool
  Resp_Message :: string
  Resp_UserID :: string

record Paste =
  Paste_ID :: string
  Paste_UserID :: string
  Paste_Title :: string
  Paste_Content :: string
  Paste_CreatedAt :: time
  Paste_ExpiresAt :: time
  Paste_IsPublic :: bool
  Paste_AccessCount :: int
  Paste_MaxAccessCount :: int

record CreatePasteRequest =
  CPR_Title :: string
  CPR_Content :: string
  CPR_ExpiresAt :: time
  CPR_IsPublic :: bool
  CPR_MaxAccessCount :: int

section \<open>The environment: file system, network and entropy\<close>

text \<open>
  A file holds the JSON value that \<^verbatim>\<open>json.Unmarshal\<close> reads from it: an object of
  string fields (a Go \<^verbatim>\<open>map[string]string\<close>, as a list of pairs with distinct keys), a
  paste, or something that does not unmarshal.
\<close>

datatype file_content =
    JSONObject "(string \<times> string) list"
  | JSONPaste Paste
  | NotJSON

text \<open>
  \<^verbatim>\<open>json.Marshal\<close> does not write every string as it is: it walks the string with
  \<^verbatim>\<open>utf8.DecodeRuneInString\<close> and writes the replacement character U+FFFD for each byte
  that does not start a valid UTF-8 encoding.  Every other byte, escaped or not, is read
  back unchanged.

  \<open>utf8_rune_size s\<close> is the number of bytes of the valid encoding at the head of
  \<open>s\<close>, and \<open>None\<close> where \<^verbatim>\<open>DecodeRuneInString\<close> returns \<^verbatim>\<open>RuneError\<close> with size 1.
  \<open>utf8_lead\<close> gives, for a leading byte of a multi-byte encoding, the size and the
  range accepted for the second byte.
\<close>

definition utf8_lead :: "nat \<Rightarrow> (nat \<times> nat \<times> nat) option" where
  "utf8_lead b =
     (if 0xC2 \<le> b \<and> b \<le> 0xDF then Some (2, 0x80, 0xBF)
      else if b = 0xE0 then Some (3, 0xA0, 0xBF)
      else if 0xE1 \<le> b \<and> b \<le> 0xEC then Some (3, 0x80, 0xBF)
      else if b = 0xED then Some (3, 0x80, 0x9F)
      else if 0xEE \<le> b \<and> b \<le> 0xEF then Some (3, 0x80, 0xBF)
      else if b = 0xF0 then Some (4, 0x90, 0xBF)
      else if 0xF1 \<le> b \<and> b \<le> 0xF3 then Some (4, 0x80, 0xBF)
      else if b = 0xF4 then Some (4, 0x80, 0x8F)
      else None)"

definition utf8_continuation :: "nat \<Rightarrow> bool" where
  "utf8_continuation b \<longleftrightarrow> 0x80 \<le> b \<and> b \<le> 0xBF"

definition utf8_rune_size :: "string \<Rightarrow> nat option" where
  "utf8_rune_size s =
     (case s of
        [] \<Rightarrow> None
      | c # rest \<Rightarrow>
          if of_char c < (0x80 :: nat) then Some 1
          else
            (case utf8_lead (of_char c) of
               None \<Rightarrow> None
             | Some (sz, lo, hi) \<Rightarrow>
                 if length s < sz then None
                 else if of_char (s ! 1) < lo \<or> hi < of_char (s ! 1) then None
                 else if sz \<le> 2 then Some 2
                 else if \<not> utf8_continuation (of_char (s ! 2)) then None
                 else if sz \<le> 3 then Some 3
                 else if \<not> utf8_continuation (of_char (s ! 3)) then None
                 else Some 4))"

definition utf8_replacement :: string where
  "utf8_replacement = [CHR 0xEF, CHR 0xBF, CHR 0xBD]"

text \<open>\<open>json_string s\<close> is the string read back after \<^verbatim>\<open>json.Marshal\<close> wrote \<open>s\<close>.  The
  first argument of \<open>json_string_from\<close> counts the bytes still to be copied of an
  encoding already found valid.\<close>

fun json_string_from :: "nat \<Rightarrow> string \<Rightarrow> string" where
  "json_string_from k [] = []"
| "json_string_from (Suc k) (c # rest) = c # json_string_from k rest"
| "json_string_from 0 (c # rest) =
     (case utf8_rune_size (c # rest) of
        None \<Rightarrow> utf8_replacement @ json_string_from 0 rest
      | Some n \<Rightarrow> c # json_string_from (n - 1) rest)"

definition json_string :: "string \<Rightarrow> string" where
  "json_string s = json_string_from 0 s"

text \<open>\<^verbatim>\<open>utf8.ValidString\<close>: the string is a sequence of valid encodings.\<close>

fun utf8_valid_from :: "nat \<Rightarrow> string \<Rightarrow> bool" where
  "utf8_valid_from k [] = True"
| "utf8_valid_from (Suc k) (c # rest) = utf8_valid_from k rest"
| "utf8_valid_from 0 (c # rest) =
     (case utf8_rune_size (c # rest) of
        None \<Rightarrow> False
      | Some n \<Rightarrow> utf8_valid_from (n - 1) rest)"

definition utf8_valid :: "string \<Rightarrow> bool" where
  "utf8_valid s = utf8_valid_from 0 s"

definition json_Marshal_map :: "(string \<times> string) list \<Rightarrow> file_content" where
  "json_Marshal_map kvs = JSONObject (map (\<lambda>(k, v). (json_string k, json_string v)) kvs)"

definition json_Marshal_paste :: "Paste \<Rightarrow> file_content" where
  "json_Marshal_paste paste =
     JSONPaste (paste\<lparr>Paste_ID := json_string (Paste_ID paste),
                       Paste_UserID := json_string (Paste_UserID paste),
                       Paste_Title := json_string (Paste_Title paste),
                       Paste_Content := json_string (Paste_Content paste)\<rparr>)"

datatype node = Dir | File file_content

text \<open>An HTTP request carries its method, URL, \<^verbatim>\<open>Authorization\<close> header (empty when
  not set) and the value marshalled into its body.\<close>

datatype request_body =
    NoBody
  | RegisterBody RegistrationData
  | LoginBody LoginRequest
  | CreatePasteBody CreatePasteRequest

record http_request =
  req_method :: string
  req_url :: string
  req_content_type :: string
  req_authorization :: string
  req_body :: request_body

text \<open>
  A response body is represented by what the client function that receives it decodes
  from it: \<open>LoginJSON r\<close> is a body from which \<^verbatim>\<open>Client.Login\<close> obtains \<open>r\<close> (by
  \<^verbatim>\<open>json.Unmarshal\<close> into the struct or by its fallback through a raw map),
  \<open>PasteJSON p\<close> one that decodes to the paste \<open>p\<close>, \<open>OtherBody\<close> one that does not
  decode, and \<open>UnreadableBody\<close> one whose reading fails.  A body of the other kind
  counts as one that does not decode.
\<close>

datatype response_body =
    LoginJSON LoginResponse
  | PasteJSON Paste
  | OtherBody
  | UnreadableBody

datatype http_result =
    DoError
  | Response nat string response_body

text \<open>
  The state outside the application: the files and directories, which file system
  operations fail, which URLs \<^verbatim>\<open>http.NewRequest\<close> rejects, how the server answers, the
  requests sent so far, and the entropy still to be read.
\<close>

record sys =
  files :: "string \<Rightarrow> node option"
  fs_fails :: "fs_op \<Rightarrow> bool"
  url_rejected :: "string \<Rightarrow> bool"
  http_do :: "http_request \<Rightarrow> http_result"
  http_sent :: "http_request list"
  entropy :: bytes

text \<open>
  \<^verbatim>\<open>filepath.Join\<close> drops empty elements and joins the others with the separator.  Its
  final cleaning of the path (removing \<open>.\<close>, \<open>..\<close> and doubled separators) is not
  modelled: the base path is taken to be clean.

  The file system maps a path to the directory or file found there.  An operation fails
  when the oracle \<open>fs_fails\<close> says so (a permission, a full or read-only disk) or when the
  node at the path is of the wrong kind; parent directories are not tracked.
\<close>

definition filepath_Join :: "string list \<Rightarrow> string" where
  "filepath_Join elems =
     (case filter (\<lambda>e. e \<noteq> []) elems of
        [] \<Rightarrow> []
      | e # es \<Rightarrow> concat (e # map (\<lambda>x. CHR ''/'' # x) es))"

definition os_MkdirAll :: "string \<Rightarrow> sys \<Rightarrow> error option \<times> sys" where
  "os_MkdirAll path s =
     (if fs_fails s (OpMkdirAll path) then (Some (FsError (OpMkdirAll path)), s)
      else
        (case files s path of
           Some (File _) \<Rightarrow> (Some (FsError (OpMkdirAll path)), s)
         | _ \<Rightarrow> (None, s\<lparr>files := (files s)(path \<mapsto> Dir)\<rparr>)))"

definition os_WriteFile :: "string \<Rightarrow> file_content \<Rightarrow> sys \<Rightarrow> error option \<times> sys" where
  "os_WriteFile path data s =
     (if fs_fails s (OpWriteFile path) \<or> files s path = Some Dir
        then (Some (FsError (OpWriteFile path)), s)
      else (None, s\<lparr>files := (files s)(path \<mapsto> File data)\<rparr>))"

definition os_ReadFile :: "string \<Rightarrow> sys \<Rightarrow> error + file_content" where
  "os_ReadFile path s =
     (if fs_fails s (OpReadFile path) then Inl (FsError (OpReadFile path))
      else
        (case files s path of
           Some (File data) \<Rightarrow> Inr data
         | _ \<Rightarrow> Inl (FsError (OpReadFile path))))"

definition os_Stat :: "string \<Rightarrow> sys \<Rightarrow> error option" where
  "os_Stat path s =
     (if fs_fails s (OpStat path) \<or> files s path = None then Some (FsError (OpStat path))
      else None)"

definition os_Remove :: "string \<Rightarrow> sys \<Rightarrow> error option \<times> sys" where
  "os_Remove path s =
     (if fs_fails s (OpRemove path) \<or> files s path = None
        then (Some (FsError (OpRemove path)), s)
      else (None, s\<lparr>files := (files s)(path := None)\<rparr>))"

definition json_Unmarshal_map :: "file_content \<Rightarrow> error + (string \<times> string) list" where
  "json_Unmarshal_map data =
     (case data of JSONObject kvs \<Rightarrow> Inr kvs | _ \<Rightarrow> Inl UnmarshalError)"

section \<open>Package \<^verbatim>\<open>storage\<close>\<close>

record LocalStorage =
  basePath :: string

definition SaveUserSession :: "LocalStorage \<Rightarrow> string \<Rightarrow> bytes \<Rightarrow> sys \<Rightarrow> error option \<times> sys" where
  "SaveUserSession ls email symmetricKey s =
     (let userDir = filepath_Join [basePath ls, ''users'']
      in case os_MkdirAll userDir s of
           (Some err, s1) \<Rightarrow> (Some err, s1)
         | (None, s1) \<Rightarrow>
             (let sessionData = [(''email'', email)]
              in os_WriteFile (filepath_Join [userDir, ''session.json''])
                   (json_Marshal_map sessionData) s1))"

definition SaveCredentials ::
  "LocalStorage \<Rightarrow> string \<Rightarrow> string \<Rightarrow> bool \<Rightarrow> sys \<Rightarrow> error option \<times> sys" where
  "SaveCredentials ls email passwordHash rememberMe s =
     (let userDir = filepath_Join [basePath ls, ''users'']
      in case os_MkdirAll userDir s of
           (Some err, s1) \<Rightarrow> (Some err, s1)
         | (None, s1) \<Rightarrow>
             if \<not> rememberMe then
               (let credPath = filepath_Join [userDir, ''credentials.json'']
                in if os_Stat credPath s1 = None then os_Remove credPath s1 else (None, s1))
             else
               (let credentialsData = [(''email'', email), (''passwordHash'', passwordHash)]
                in os_WriteFile (filepath_Join [userDir, ''credentials.json''])
                     (json_Marshal_map credentialsData) s1))"

definition GetSavedCredentials :: "LocalStorage \<Rightarrow> sys \<Rightarrow> error + (string \<times> string)" where
  "GetSavedCredentials ls s =
     (let credPath = filepath_Join [basePath ls, ''users'', ''credentials.json'']
      in case os_ReadFile credPath s of
           Inl err \<Rightarrow> Inl NoSavedCredentials
         | Inr data \<Rightarrow>
             (case json_Unmarshal_map data of
                Inl err \<Rightarrow> Inl err
              | Inr credentialsData \<Rightarrow>
                  (case map_of credentialsData ''email'' of
                     None \<Rightarrow> Inl InvalidCredentialsMissingEmail
                   | Some email \<Rightarrow>
                       (case map_of credentialsData ''passwordHash'' of
                          None \<Rightarrow> Inl InvalidCredentialsMissingPasswordHash
                        | Some passwordHash \<Rightarrow> Inr (email, passwordHash)))))"

definition GetUserSession :: "LocalStorage \<Rightarrow> sys \<Rightarrow> error + string" where
  "GetUserSession ls s =
     (let sessionPath = filepath_Join [basePath ls, ''users'', ''session.json'']
      in case os_ReadFile sessionPath s of
           Inl err \<Rightarrow> Inl NoActiveSession
         | Inr data \<Rightarrow>
             (case json_Unmarshal_map data of
                Inl err \<Rightarrow> Inl err
              | Inr sessionData \<Rightarrow>
                  (case map_of sessionData ''email'' of
                     None \<Rightarrow> Inl InvalidSessionData
                   | Some email \<Rightarrow> Inr email)))"

definition ClearUserSession :: "LocalStorage \<Rightarrow> sys \<Rightarrow> error option \<times> sys" where
  "ClearUserSession ls s =
     (let sessionPath = filepath_Join [basePath ls, ''users'', ''session.json'']
      in if os_Stat sessionPath s = None then os_Remove sessionPath s else (None, s))"

definition SavePasteLocally :: "LocalStorage \<Rightarrow> Paste \<Rightarrow> sys \<Rightarrow> error option \<times> sys" where
  "SavePasteLocally ls paste s =
     (let pastesDir = filepath_Join [basePath ls, ''pastes'']
      in case os_MkdirAll pastesDir s of
           (Some err, s1) \<Rightarrow> (Some err, s1)
         | (None, s1) \<Rightarrow>
             os_WriteFile (filepath_Join [pastesDir, Paste_ID paste @ ''.json''])
               (json_Marshal_paste paste) s1)"

section \<open>Package \<^verbatim>\<open>auth\<close>\<close>

definition HashPasswordForServer :: "primitives \<Rightarrow> string \<Rightarrow> string \<Rightarrow> error + string" where
  "HashPasswordForServer P password email =
     (let salt = ''pastepal-auth:'' @ email;
          authHash = pbkdf2_Key P (bytes_of password) (bytes_of salt) 100000 32
      in Inr (b64_encode authHash))"

definition RegisterUser ::
  "primitives \<Rightarrow> string \<Rightarrow> string \<Rightarrow> bytes \<Rightarrow> (error + RegistrationData) \<times> bytes" where
  "RegisterUser P email password ent =
     (case DeriveKeyFromPassword P password email of
        Inl err \<Rightarrow> (Inl err, ent)
      | Inr masterKey \<Rightarrow>
          (case GenerateSymmetricKey ent of
             (Inl err, ent1) \<Rightarrow> (Inl err, ent1)
           | (Inr symmetricKey, ent1) \<Rightarrow>
               (case EncryptSymmetricKey P symmetricKey masterKey ent1 of
                  (Inl err, ent2) \<Rightarrow> (Inl err, ent2)
                | (Inr encryptedSymmetricKey, ent2) \<Rightarrow>
                    (case HashPasswordForServer P password email of
                       Inl err \<Rightarrow> (Inl err, ent2)
                     | Inr passwordHash \<Rightarrow>
                         (Inr \<lparr>Reg_Email = email, Reg_PasswordHash = passwordHash,
                               Reg_EncryptedSymmetricKey = encryptedSymmetricKey\<rparr>, ent2)))))"

definition LoginUser :: "primitives \<Rightarrow> string \<Rightarrow> string \<Rightarrow> string \<Rightarrow> error + bytes" where
  "LoginUser P email password encryptedSymmetricKey =
     (case DeriveKeyFromPassword P password email of
        Inl err \<Rightarrow> Inl err
      | Inr masterKey \<Rightarrow>
          (case DecryptSymmetricKey P encryptedSymmetricKey masterKey of
             Inl err \<Rightarrow> Inl InvalidCredentialsOrCorruptedKey
           | Inr symmetricKey \<Rightarrow> Inr symmetricKey))"

definition PrepareLoginRequest :: "primitives \<Rightarrow> string \<Rightarrow> string \<Rightarrow> error + LoginRequest" where
  "PrepareLoginRequest P email password =
     (case HashPasswordForServer P password email of
        Inl err \<Rightarrow> Inl err
      | Inr passwordHash \<Rightarrow> Inr \<lparr>Req_Email = email, Req_PasswordHash = passwordHash\<rparr>)"

section \<open>Package \<^verbatim>\<open>api\<close>\<close>

text \<open>The client's \<^verbatim>\<open>http.Client\<close> only fixes a timeout and is left out.\<close>

record Client =
  BaseURL :: string
  AuthToken :: string

definition SetAuthToken :: "Client \<Rightarrow> string \<Rightarrow> Client" where
  "SetAuthToken c token = c\<lparr>AuthToken := token\<rparr>"

definition http_NewRequest :: "string \<Rightarrow> string \<Rightarrow> request_body \<Rightarrow> sys \<Rightarrow> error + http_request" where
  "http_NewRequest method url body s =
     (if url_rejected s url then Inl RequestError
      else Inr \<lparr>req_method = method, req_url = url, req_content_type = [],
                req_authorization = [], req_body = body\<rparr>)"

definition http_Do :: "http_request \<Rightarrow> sys \<Rightarrow> http_result \<times> sys" where
  "http_Do req s = (http_do s req, s\<lparr>http_sent := http_sent s @ [req]\<rparr>)"

definition Client_Register :: "Client \<Rightarrow> RegistrationData \<Rightarrow> sys \<Rightarrow> error option \<times> sys" where
  "Client_Register c data s =
     (case http_NewRequest ''POST'' (BaseURL c @ ''/api/auth/register'') (RegisterBody data) s of
        Inl err \<Rightarrow> (Some err, s)
      | Inr req \<Rightarrow>
          (case http_Do (req\<lparr>req_content_type := ''application/json''\<rparr>) s of
             (DoError, s1) \<Rightarrow> (Some TransportError, s1)
           | (Response status hdr body, s1) \<Rightarrow>
               if status \<noteq> 201 then (Some RegistrationFailed, s1) else (None, s1)))"

definition Client_Login ::
  "Client \<Rightarrow> LoginRequest \<Rightarrow> sys \<Rightarrow> (error + LoginResponse) \<times> Client \<times> sys" where
  "Client_Login c loginReq s =
     (case http_NewRequest ''POST'' (BaseURL c @ ''/api/auth/login'') (LoginBody loginReq) s of
        Inl err \<Rightarrow> (Inl err, c, s)
      | Inr req \<Rightarrow>
          (case http_Do (req\<lparr>req_content_type := ''application/json''\<rparr>) s of
             (DoError, s1) \<Rightarrow> (Inl TransportError, c, s1)
           | (Response status hdr body, s1) \<Rightarrow>
               if status \<noteq> 200 then (Inl AuthenticationFailed, c, s1)
               else
                 (case body of
                    LoginJSON loginResp \<Rightarrow>
                      if UR_ID (Resp_User loginResp) = [] \<or> Resp_EncryptedSymmetricKey loginResp = []
                        then (Inl MissingRequiredData, c, s1)
                      else
                        (let token = hdr
                         in if token \<noteq> [] then (Inr loginResp, SetAuthToken c token, s1)
                            else if Resp_AuthToken loginResp \<noteq> []
                              then (Inr loginResp, SetAuthToken c (Resp_AuthToken loginResp), s1)
                            else (Inr loginResp, c, s1))
                  | UnreadableBody \<Rightarrow> (Inl BodyReadError, c, s1)
                  | _ \<Rightarrow> (Inl ParseFailure, c, s1))))"

definition Client_CreatePaste ::
  "Client \<Rightarrow> CreatePasteRequest \<Rightarrow> sys \<Rightarrow> (error + Paste) \<times> sys" where
  "Client_CreatePaste c pasteReq s =
     (if AuthToken c = [] then (Inl NotAuthenticated, s)
      else
        (case http_NewRequest ''POST'' (BaseURL c @ ''/api/pastes'') (CreatePasteBody pasteReq) s of
           Inl err \<Rightarrow> (Inl err, s)
         | Inr req \<Rightarrow>
             (case http_Do (req\<lparr>req_content_type := ''application/json'',
                                 req_authorization := AuthToken c\<rparr>) s of
                (DoError, s1) \<Rightarrow> (Inl TransportError, s1)
              | (Response status hdr body, s1) \<Rightarrow>
                  if status \<noteq> 201 then (Inl FailedToCreatePaste, s1)
                  else
                    (case body of
                       PasteJSON paste \<Rightarrow> (Inr paste, s1)
                     | _ \<Rightarrow> (Inl ParseFailure, s1)))))"

definition Client_GetPaste :: "Client \<Rightarrow> string \<Rightarrow> sys \<Rightarrow> (error + Paste) \<times> sys" where
  "Client_GetPaste c pasteID s =
     (case http_NewRequest ''GET'' (BaseURL c @ ''/api/pastes/'' @ pasteID) NoBody s of
        Inl err \<Rightarrow> (Inl err, s)
      | Inr req \<Rightarrow>
          (case http_Do (if AuthToken c \<noteq> [] then req\<lparr>req_authorization := AuthToken c\<rparr> else req) s of
             (DoError, s1) \<Rightarrow> (Inl TransportError, s1)
           | (Response status hdr body, s1) \<Rightarrow>
               if status \<noteq> 200 then (Inl PasteNotFoundOrAccessDenied, s1)
               else
                 (case body of
                    PasteJSON paste \<Rightarrow> (Inr paste, s1)
                  | _ \<Rightarrow> (Inl ParseFailure, s1))))"

section \<open>Package \<^verbatim>\<open>core\<close>\<close>

record Config =
  APIURL :: string
  StoragePath :: string
  DebugMode :: bool

text \<open>The application state.  A nil pointer or nil slice is \<open>None\<close>.  The mutex is
  left out: every operation runs from start to end on its own.\<close>

record PastePalApp =
  Config :: Config
  APIClient :: Client
  LocalStorage :: LocalStorage
  CurrentUser :: "User option"
  SymmetricKey :: "bytes option"
  IsLoggedIn :: bool

definition slice_bytes :: "bytes option \<Rightarrow> bytes" where
  "slice_bytes b = (case b of None \<Rightarrow> [] | Some bs \<Rightarrow> bs)"

definition Register ::
  "primitives \<Rightarrow> string \<Rightarrow> string \<Rightarrow> PastePalApp \<times> sys \<Rightarrow> error option \<times> PastePalApp \<times> sys" where
  "Register P email password st =
     (case st of (app, s) \<Rightarrow>
        (case RegisterUser P email password (entropy s) of
           (Inl err, ent1) \<Rightarrow> (Some err, app, s\<lparr>entropy := ent1\<rparr>)
         | (Inr regData, ent1) \<Rightarrow>
             (case Client_Register (APIClient app) regData (s\<lparr>entropy := ent1\<rparr>) of
                (Some err, s1) \<Rightarrow> (Some err, app, s1)
              | (None, s1) \<Rightarrow> (None, app, s1))))"

definition Login ::
  "primitives \<Rightarrow> string \<Rightarrow> string \<Rightarrow> bool \<Rightarrow> PastePalApp \<times> sys
     \<Rightarrow> error option \<times> PastePalApp \<times> sys" where
  "Login P email password rememberMe st =
     (case st of (app, s) \<Rightarrow>
        (case PrepareLoginRequest P email password of
           Inl err \<Rightarrow> (Some err, app, s)
         | Inr loginReq \<Rightarrow>
             (case Client_Login (APIClient app) loginReq s of
                (Inl err, c1, s1) \<Rightarrow> (Some err, app\<lparr>APIClient := c1\<rparr>, s1)
              | (Inr loginResp, c1, s1) \<Rightarrow>
                  (let app1 = app\<lparr>APIClient := c1\<rparr>;
                       userID = (if UR_ID (Resp_User loginResp) = [] then Resp_UserID loginResp
                                 else UR_ID (Resp_User loginResp))
                   in if userID = [] then (Some NoUserID, app1, s1)
                      else
                        (let app2 = (if Resp_AuthToken loginResp \<noteq> []
                                     then app1\<lparr>APIClient :=
                                            SetAuthToken (APIClient app1) (Resp_AuthToken loginResp)\<rparr>
                                     else app1)
                         in if Resp_EncryptedSymmetricKey loginResp = []
                              then (Some NoEncryptedSymmetricKey, app2, s1)
                            else
                              (case LoginUser P email password (Resp_EncryptedSymmetricKey loginResp) of
                                 Inl err \<Rightarrow> (Some err, app2, s1)
                               | Inr symmetricKey \<Rightarrow>
                                   (let app3 = app2
                                          \<lparr>CurrentUser := Some
                                             \<lparr>User_ID = userID, User_Email = email,
                                              User_EncryptedSymmetricKey =
                                                Resp_EncryptedSymmetricKey loginResp,
                                              User_CreatedAt = UR_CreatedAt (Resp_User loginResp)\<rparr>,
                                           SymmetricKey := Some symmetricKey,
                                           IsLoggedIn := True\<rparr>
                                    in case SaveUserSession (LocalStorage app3) email symmetricKey s1 of
                                         (Some err, s2) \<Rightarrow> (Some err, app3, s2)
                                       | (None, s2) \<Rightarrow>
                                           if rememberMe then
                                             (let passwordHash = Req_PasswordHash loginReq
                                              in case SaveCredentials (LocalStorage app3) email
                                                        passwordHash rememberMe s2 of
                                                   (Some err, s3) \<Rightarrow> (None, app3, s3)
                                                 | (None, s3) \<Rightarrow> (None, app3, s3))
                                           else (None, app3, s2))))))))"

definition AutoLogin :: "PastePalApp \<times> sys \<Rightarrow> bool \<times> PastePalApp \<times> sys" where
  "AutoLogin st =
     (case st of (app, s) \<Rightarrow>
        if IsLoggedIn app then (True, app, s)
        else
          (case GetSavedCredentials (LocalStorage app) s of
             Inl err \<Rightarrow> (False, app, s)
           | Inr (email, passwordHash) \<Rightarrow>
               (let loginReq = \<lparr>Req_Email = email, Req_PasswordHash = passwordHash\<rparr>
                in case Client_Login (APIClient app) loginReq s of
                     (Inl err, c1, s1) \<Rightarrow> (False, app\<lparr>APIClient := c1\<rparr>, s1)
                   | (Inr loginResp, c1, s1) \<Rightarrow>
                       (let app1 = app\<lparr>APIClient := c1\<rparr>;
                            userID = (if UR_ID (Resp_User loginResp) = []
                                      then Resp_UserID loginResp
                                      else UR_ID (Resp_User loginResp))
                        in if userID = [] then (False, app1, s1)
                           else
                             (let app2 = (if Resp_AuthToken loginResp \<noteq> []
                                          then app1\<lparr>APIClient :=
                                                 SetAuthToken (APIClient app1) (Resp_AuthToken loginResp)\<rparr>
                                          else app1);
                                  symmetricKey = bytes_of passwordHash;
                                  app3 = app2
                                    \<lparr>CurrentUser := Some
                                       \<lparr>User_ID = userID, User_Email = email,
                                        User_EncryptedSymmetricKey =
                                          Resp_EncryptedSymmetricKey loginResp,
                                        User_CreatedAt = UR_CreatedAt (Resp_User loginResp)\<rparr>,
                                     SymmetricKey := Some symmetricKey,
                                     IsLoggedIn := True\<rparr>
                              in case SaveUserSession (LocalStorage app3) email symmetricKey s1 of
                                   (Some err, s2) \<Rightarrow> (False, app3, s2)
                                 | (None, s2) \<Rightarrow> (True, app3, s2))))))"

definition Logout :: "PastePalApp \<times> sys \<Rightarrow> error option \<times> PastePalApp \<times> sys" where
  "Logout st =
     (case st of (app, s) \<Rightarrow>
        (let app1 = app\<lparr>CurrentUser := None, SymmetricKey := None, IsLoggedIn := False\<rparr>;
             app2 = app1\<lparr>APIClient := SetAuthToken (APIClient app1) []\<rparr>
         in case ClearUserSession (LocalStorage app2) s of
              (err, s1) \<Rightarrow> (err, app2, s1)))"

text \<open>\<^verbatim>\<open>CreatePaste\<close> takes \<^verbatim>\<open>expiresAt\<close> and \<^verbatim>\<open>maxAccessCount\<close> and does not use
  them; a failure to save the paste locally is ignored.\<close>

definition CreatePaste ::
  "primitives \<Rightarrow> string \<Rightarrow> string \<Rightarrow> bool \<Rightarrow> int \<Rightarrow> int \<Rightarrow> PastePalApp \<times> sys
     \<Rightarrow> (error + Paste) \<times> PastePalApp \<times> sys" where
  "CreatePaste P title content isPublic expiresAt maxAccessCount st =
     (case st of (app, s) \<Rightarrow>
        if \<not> IsLoggedIn app then (Inl NotLoggedIn, app, s)
        else
          (case EncryptData P (bytes_of title) (slice_bytes (SymmetricKey app)) (entropy s) of
             (Inl err, ent1) \<Rightarrow> (Inl err, app, s\<lparr>entropy := ent1\<rparr>)
           | (Inr encryptedTitle, ent1) \<Rightarrow>
               (case EncryptData P (bytes_of content) (slice_bytes (SymmetricKey app)) ent1 of
                  (Inl err, ent2) \<Rightarrow> (Inl err, app, s\<lparr>entropy := ent2\<rparr>)
                | (Inr encryptedContent, ent2) \<Rightarrow>
                    (let pasteReq = \<lparr>CPR_Title = encryptedTitle, CPR_Content = encryptedContent,
                                     CPR_ExpiresAt = 0, CPR_IsPublic = isPublic,
                                     CPR_MaxAccessCount = 0\<rparr>
                     in case Client_CreatePaste (APIClient app) pasteReq (s\<lparr>entropy := ent2\<rparr>) of
                          (Inl err, s1) \<Rightarrow> (Inl err, app, s1)
                        | (Inr paste, s1) \<Rightarrow>
                            (case SavePasteLocally (LocalStorage app) paste s1 of
                               (err, s2) \<Rightarrow> (Inr paste, app, s2))))))"

definition GetPaste ::
  "primitives \<Rightarrow> string \<Rightarrow> PastePalApp \<times> sys \<Rightarrow> (error + string \<times> string) \<times> PastePalApp \<times> sys" where
  "GetPaste P pasteID st =
     (case st of (app, s) \<Rightarrow>
        if \<not> IsLoggedIn app then (Inl NotLoggedIn, app, s)
        else
          (case Client_GetPaste (APIClient app) pasteID s of
             (Inl err, s1) \<Rightarrow> (Inl err, app, s1)
           | (Inr paste, s1) \<Rightarrow>
               (case DecryptData P (Paste_Title paste) (slice_bytes (SymmetricKey app)) of
                  Inl err \<Rightarrow> (Inl err, app, s1)
                | Inr titleBytes \<Rightarrow>
                    (case DecryptData P (Paste_Content paste) (slice_bytes (SymmetricKey app)) of
                       Inl err \<Rightarrow> (Inl err, app, s1)
                     | Inr contentBytes \<Rightarrow>
                         (Inr (string_of titleBytes, string_of contentBytes), app, s1)))))"

section \<open>Concrete inputs\<close>

text \<open>
  Stand-ins for the two primitives, used only where a statement is instantiated at a
  concrete input; every theorem with a variable for the primitives holds for all of
  them.  The stand-in for HMAC reads the last 32 bytes of key and message as a number
  and maps every 32-byte message to 0, so that PBKDF2 returns its first block value.
\<close>

definition example_primitives :: primitives where
  "example_primitives =
     \<lparr>hmac_sha256 = (\<lambda>key msg. if length msg = 32 then 0 else bytes_word (key @ msg)),
      aes_block = (\<lambda>key x. x XOR bytes_word key)\<rparr>"

text \<open>The title \<open>T\<close> sealed under a 32-byte key, and the same bytes with the
  last bit flipped.\<close>

definition example_sealed :: bytes where
  "example_sealed =
     projr (fst (encrypt example_primitives (bytes_of ''T'') (replicate 32 7) (replicate 12 1)))"

definition example_tampered :: bytes where
  "example_tampered = butlast example_sealed @ [last example_sealed XOR 1]"

definition example_app :: PastePalApp where
  "example_app =
     \<lparr>Config = \<lparr>APIURL = ''http://localhost:8080'', StoragePath = ''/home/u/.pastepal'',
                DebugMode = False\<rparr>,
      APIClient = \<lparr>BaseURL = ''http://localhost:8080'', AuthToken = []\<rparr>,
      LocalStorage = \<lparr>basePath = ''/home/u/.pastepal''\<rparr>,
      CurrentUser = None, SymmetricKey = None, IsLoggedIn = False\<rparr>"

text \<open>File systems on which no operation fails, every operation fails, and removing
  a file fails.\<close>

definition fs_never_fails :: "fs_op \<Rightarrow> bool" where
  "fs_never_fails op = False"

definition fs_always_fails :: "fs_op \<Rightarrow> bool" where
  "fs_always_fails op = True"

definition fs_remove_fails :: "fs_op \<Rightarrow> bool" where
  "fs_remove_fails op = (case op of OpRemove path \<Rightarrow> True | _ \<Rightarrow> False)"

text \<open>A server that accepts every login and answers with user \<open>u1\<close>, the token
  \<open>tok\<close> and the given sealed key; the environment has no files yet.\<close>

definition example_response :: "string \<Rightarrow> LoginResponse" where
  "example_response esk =
     \<lparr>Resp_User = \<lparr>UR_ID = ''u1'', UR_Email = ''a@x.com'', UR_CreatedAt = 0\<rparr>,
      Resp_AuthToken = ''tok'', Resp_EncryptedSymmetricKey = esk,
      Resp_Success = True, Resp_Message = [], Resp_UserID = []\<rparr>"

definition example_server :: "string \<Rightarrow> http_request \<Rightarrow> http_result" where
  "example_server esk req = Response 200 [] (LoginJSON (example_response esk))"

definition example_no_url_rejected :: "string \<Rightarrow> bool" where
  "example_no_url_rejected url = False"

definition example_sys :: "string \<Rightarrow> (fs_op \<Rightarrow> bool) \<Rightarrow> sys" where
  "example_sys esk fails =
     \<lparr>files = Map.empty, fs_fails = fails, url_rejected = example_no_url_rejected,
      http_do = example_server esk, http_sent = [], entropy = replicate 64 1\<rparr>"

text \<open>The registration data of \<open>a@x.com\<close> with password \<open>pw\<close>; the content key
  generated for it is 32 bytes of value 1.\<close>

definition example_registration :: RegistrationData where
  "example_registration =
     projr (fst (RegisterUser example_primitives ''a@x.com'' ''pw'' (replicate 44 1)))"

text \<open>The server returns a sealed key that is no ciphertext at all.\<close>

definition example_sys_corrupt :: sys where
  "example_sys_corrupt = example_sys ''AAAA'' fs_never_fails"

text \<open>The server returns the key sealed at registration, and the file system is
  read-only.\<close>

definition example_sys_readonly :: sys where
  "example_sys_readonly =
     example_sys (Reg_EncryptedSymmetricKey example_registration) fs_always_fails"

text \<open>The environment after the credentials of \<open>a@x.com\<close> were saved.\<close>

definition example_sys_remembered :: sys where
  "example_sys_remembered =
     snd (SaveCredentials (LocalStorage example_app) ''a@x.com''
            (Reg_PasswordHash example_registration) True
            (example_sys (Reg_EncryptedSymmetricKey example_registration) fs_never_fails))"

text \<open>A logged-in application whose session file cannot be removed.\<close>

definition example_app_logged_in :: PastePalApp where
  "example_app_logged_in =
     example_app
       \<lparr>APIClient := \<lparr>BaseURL = ''http://localhost:8080'', AuthToken = ''tok''\<rparr>,
        CurrentUser := Some \<lparr>User_ID = ''u1'', User_Email = ''a@x.com'',
                             User_EncryptedSymmetricKey = ''AAAA'', User_CreatedAt = 0\<rparr>,
        SymmetricKey := Some (replicate 32 1),
        IsLoggedIn := True\<rparr>"

definition example_sys_stuck :: sys where
  "example_sys_stuck =
     snd (SaveUserSession (LocalStorage example_app) ''a@x.com'' (replicate 32 1)
            (example_sys ''AAAA'' fs_remove_fails))"

text \<open>The environment after the credentials were saved and a session was opened.\<close>

definition example_sys_session :: sys where
  "example_sys_session =
     snd (SaveUserSession (LocalStorage example_app) ''a@x.com'' (replicate 32 1)
            example_sys_remembered)"

section \<open>Properties of the library functions\<close>

lemma string_of_bytes_of: "string_of (bytes_of s) = s"
  by (induction s) (simp_all add: string_of_def bytes_of_def unat_of_nat take_bit_eq_mod)

lemma length_bytes_of: "length (bytes_of s) = length s"
  by (simp add: bytes_of_def)

lemma bytes_of_eq_Nil: "bytes_of s = [] \<longleftrightarrow> s = []"
  by (simp add: bytes_of_def)

lemma length_word_bytes: "length (word_bytes n w) = n"
  by (simp add: word_bytes_def)

subsection \<open>Base64\<close>

lemma index_of_nth: "distinct xs \<Longrightarrow> n < length xs \<Longrightarrow> index_of (xs ! n) xs = Some n"
proof (induction xs arbitrary: n)
  case Nil
  then show ?case by simp
next
  case (Cons y ys)
  show ?case
  proof (cases n)
    case 0
    then show ?thesis by simp
  next
    case (Suc m)
    with Cons.prems have "ys ! m \<in> set ys" "y \<notin> set ys" "m < length ys" "distinct ys"
      by auto
    with Cons.IH [of m] Suc show ?thesis by auto
  qed
qed

lemma distinct_b64_alphabet: "distinct b64_alphabet"
  by (simp add: b64_alphabet_def)

lemma length_b64_alphabet: "length b64_alphabet = 64"
  by (simp add: b64_alphabet_def)

lemma b64_value_char: "n < 64 \<Longrightarrow> b64_value (b64_char n) = Some n"
  by (simp add: b64_value_def b64_char_def index_of_nth distinct_b64_alphabet length_b64_alphabet)

lemma b64_char_in: "n < 64 \<Longrightarrow> b64_char n \<in> set b64_alphabet"
  by (simp add: b64_char_def length_b64_alphabet)

lemma b64_pad_notin: "b64_pad \<notin> set b64_alphabet"
  by (simp add: b64_alphabet_def b64_pad_def)

lemma newline_notin: "CHR 0x0D \<notin> set b64_alphabet" "CHR 0x0A \<notin> set b64_alphabet"
  by (simp_all add: b64_alphabet_def)

lemma b64_char_not_special:
  assumes "n < 64"
  shows "b64_char n \<noteq> b64_pad" "b64_char n \<noteq> CHR 0x0D" "b64_char n \<noteq> CHR 0x0A"
  using b64_char_in [OF assms] b64_pad_notin newline_notin by metis+

lemma unat_byte_less: "unat (a :: byte) < 256"
  using unsigned_less [of a, where 'a = nat] by simp

lemma divmod_decomp: "r < k \<Longrightarrow> m = q * k + r \<Longrightarrow> m div k = q \<and> m mod k = (r::nat)"
  by simp

lemma b64_sextet_less: "b64_sextet i a b c < 64"
  by (simp add: b64_sextet_def)

lemma base64_digits:
  fixes v :: nat
  assumes "v < 16777216"
  shows "(v div 262144 mod 64) * 262144 + (v div 4096 mod 64) * 4096
           + (v div 64 mod 64) * 64 + v mod 64 = v"
proof -
  have a: "v div 64 div 64 = v div 4096" and b: "v div 4096 div 64 = v div 262144"
    by (simp_all add: div_mult2_eq [symmetric])
  have 1: "v = (v div 64) * 64 + v mod 64"
    by simp
  have 2: "v div 64 = (v div 4096) * 64 + v div 64 mod 64"
    using div_mult_mod_eq [of "v div 64" 64] unfolding a by simp
  have 3: "v div 4096 = (v div 262144) * 64 + v div 4096 mod 64"
    using div_mult_mod_eq [of "v div 4096" 64] unfolding b by simp
  have 5: "v div 262144 mod 64 = v div 262144"
    using assms by simp
  show ?thesis
    unfolding 5 using 1 2 3 by linarith
qed

lemma b64_value24: "unat (a::byte) * 65536 + unat (b::byte) * 256 + unat (c::byte) < 16777216"
  using unat_byte_less [of a] unat_byte_less [of b] unat_byte_less [of c] by linarith

lemma b64_octets_sextets:
  "b64_octets (b64_sextet 18 a b c) (b64_sextet 12 a b c) (b64_sextet 6 a b c) (b64_sextet 0 a b c)
     = [a, b, c]"
proof -
  let ?v = "unat a * 65536 + unat b * 256 + unat c"
  have v: "b64_sextet 18 a b c * 262144 + b64_sextet 12 a b c * 4096 + b64_sextet 6 a b c * 64
             + b64_sextet 0 a b c = ?v"
  proof -
    have p: "(2::nat) ^ 18 = 262144" "(2::nat) ^ 12 = 4096" "(2::nat) ^ 6 = 64" "(2::nat) ^ 0 = 1"
      by simp_all
    show ?thesis
      unfolding b64_sextet_def p div_by_1 by (rule base64_digits [OF b64_value24])
  qed
  have "?v div 65536 = unat a \<and> ?v mod 65536 = unat b * 256 + unat c"
    using unat_byte_less [of b] unat_byte_less [of c] by (intro divmod_decomp) simp_all
  moreover have "?v div 256 = unat a * 256 + unat b \<and> ?v mod 256 = unat c"
    using unat_byte_less [of c] by (intro divmod_decomp) simp_all
  moreover have "(word_of_nat (unat a * 256 + unat b) :: byte) = b"
  proof -
    have "(word_of_nat (unat a * 256 + unat b) :: byte) = a * 256 + b"
      by simp
    also have "(256 :: byte) = 0"
      by simp
    finally show ?thesis
      by simp
  qed
  moreover have "(word_of_nat ?v :: byte) = c"
  proof -
    have "(word_of_nat ?v :: byte) = a * 65536 + b * 256 + c"
      by simp
    also have "(65536 :: byte) = 0"
      by simp
    also have "(256 :: byte) = 0"
      by simp
    finally show ?thesis
      by simp
  qed
  ultimately show ?thesis
    unfolding b64_octets_def v Let_def by (simp del: of_nat_add of_nat_mult)
qed

lemma b64_sextet_zero: "b64_sextet 0 a b 0 = 0" "b64_sextet 6 a 0 0 = 0" "b64_sextet 0 a 0 0 = 0"
  by (simp_all add: b64_sextet_def)

lemma b64_decode_groups_encode: "b64_decode_groups (b64_encode bs) = Some bs"
proof (induction bs rule: b64_encode.induct)
  case 1
  show ?case by simp
next
  case (2 a)
  have "take 1 (b64_octets (b64_sextet 18 a 0 0) (b64_sextet 12 a 0 0) 0 0) = [a]"
    using b64_octets_sextets [of a 0 0] by (simp add: b64_sextet_zero)
  then show ?case
    by (simp add: b64_value_char b64_sextet_less)
next
  case (3 a b)
  have "take 2 (b64_octets (b64_sextet 18 a b 0) (b64_sextet 12 a b 0) (b64_sextet 6 a b 0) 0)
          = [a, b]"
    using b64_octets_sextets [of a b 0] by (simp add: b64_sextet_zero)
  then show ?case
    by (simp add: b64_value_char b64_sextet_less b64_char_not_special)
next
  case (4 a b c rest)
  then show ?case
    by (simp add: b64_value_char b64_sextet_less b64_char_not_special b64_octets_sextets)
qed

lemma b64_encode_no_newline:
  "filter (\<lambda>c. c \<noteq> CHR 0x0D \<and> c \<noteq> CHR 0x0A) (b64_encode bs) = b64_encode bs"
proof (induction bs rule: b64_encode.induct)
  case (4 a b c rest)
  then show ?case
    by (simp add: b64_char_not_special b64_sextet_less)
qed (simp_all add: b64_char_not_special b64_sextet_less, simp_all add: b64_pad_def)

lemma b64_decode_encode: "b64_decode (b64_encode bs) = Inr bs"
  by (simp add: b64_decode_def b64_encode_no_newline b64_decode_groups_encode)

lemma length_b64_encode: "length (b64_encode bs) = 4 * ((length bs + 2) div 3)"
proof (induction bs rule: b64_encode.induct)
  case (4 a b c rest)
  have "(length (a # b # c # rest) + 2) div 3 = Suc ((length rest + 2) div 3)"
    by simp
  with 4 show ?case
    by (simp del: length_Cons)
qed simp_all

subsection \<open>Strings written by \<^verbatim>\<open>json.Marshal\<close>\<close>

lemma json_string_from_valid: "utf8_valid_from k s \<Longrightarrow> json_string_from k s = s"
  by (induction k s rule: json_string_from.induct) (auto split: option.splits)

lemma json_string_valid: "utf8_valid s \<Longrightarrow> json_string s = s"
  by (simp add: utf8_valid_def json_string_def json_string_from_valid)

lemma utf8_valid_from_ascii: "\<forall>c\<in>set s. of_char c < (128 :: nat) \<Longrightarrow> utf8_valid_from 0 s"
  by (induction s) (simp_all add: utf8_rune_size_def)

lemma utf8_valid_ascii: "\<forall>c\<in>set s. of_char c < (128 :: nat) \<Longrightarrow> utf8_valid s"
  by (simp add: utf8_valid_def utf8_valid_from_ascii)

lemma json_string_ascii: "\<forall>c\<in>set s. of_char c < (128 :: nat) \<Longrightarrow> json_string s = s"
  by (simp add: utf8_valid_ascii json_string_valid)

lemma json_string_invalid_byte:
  "json_string [CHR 0xFF, CHR ''@'', CHR ''x'']
     = [CHR 0xEF, CHR 0xBF, CHR 0xBD, CHR ''@'', CHR ''x'']"
  by (simp add: json_string_def utf8_rune_size_def utf8_lead_def utf8_replacement_def)

lemma b64_alphabet_ascii: "\<forall>c\<in>set b64_alphabet. of_char c < (128 :: nat)"
  by (simp add: b64_alphabet_def)

lemma b64_char_ascii: "n < 64 \<Longrightarrow> of_char (b64_char n) < (128 :: nat)"
  using b64_char_in [of n] b64_alphabet_ascii by blast

lemma b64_encode_ascii: "\<forall>c\<in>set (b64_encode bs). of_char c < (128 :: nat)"
  by (induction bs rule: b64_encode.induct)
    (simp_all add: b64_char_ascii b64_sextet_less b64_pad_def)

subsection \<open>PBKDF2 and GCM\<close>

lemma length_pbkdf2_block: "length (pbkdf2_block prf salt iter i) = 32"
  by (simp add: pbkdf2_block_def Let_def length_word_bytes)

lemma length_concat_const:
  "(\<And>x. x \<in> set xs \<Longrightarrow> length (f x) = k) \<Longrightarrow> length (concat (map f xs)) = k * length xs"
  by (induction xs) simp_all

lemma length_pbkdf2_Key: "length (pbkdf2_Key P password salt iter keyLen) = keyLen"
proof -
  let ?n = "(keyLen + 32 - 1) div 32"
  have "length (concat (map (pbkdf2_block (hmac_sha256 P password) salt iter) [1..<Suc ?n]))
          = 32 * ?n"
    by (subst length_concat_const [where k = 32]) (simp_all add: length_pbkdf2_block)
  moreover have "keyLen \<le> 32 * ?n"
    by simp
  ultimately show ?thesis
    by (simp add: pbkdf2_Key_def Let_def)
qed

lemma map2_xor_cancel:
  "length xs \<le> length ks \<Longrightarrow> map2 (XOR) (map2 (XOR) xs ks) ks = (xs :: bytes)"
proof (induction xs arbitrary: ks)
  case Nil
  show ?case by simp
next
  case (Cons x xs)
  then obtain k ks' where "ks = k # ks'"
    by (cases ks) auto
  with Cons show ?case
    by (simp add: xor.assoc)
qed

lemma length_gcm_counterCrypt: "length (gcm_counterCrypt blk ctr data) = length data"
proof (induction blk ctr data rule: gcm_counterCrypt.induct)
  case (1 blk ctr data)
  show ?case
  proof (cases "data = []")
    case True
    then show ?thesis
      by (simp add: gcm_counterCrypt.simps)
  next
    case False
    with 1 show ?thesis
      by (subst gcm_counterCrypt.simps) (simp add: length_word_bytes)
  qed
qed

lemma gcm_counterCrypt_involution:
  "gcm_counterCrypt blk ctr (gcm_counterCrypt blk ctr data) = data"
proof (induction blk ctr data rule: gcm_counterCrypt.induct)
  case (1 blk ctr data)
  show ?case
  proof (cases "data = []")
    case True
    then show ?thesis
      by (simp add: gcm_counterCrypt.simps)
  next
    case False
    let ?ks = "word_bytes 16 (blk ctr)"
    let ?x = "map2 (XOR) (take 16 data) ?ks"
    let ?r = "gcm_counterCrypt blk (gcm_inc32 ctr) (drop 16 data)"
    have out: "gcm_counterCrypt blk ctr data = ?x @ ?r"
      using False by (subst gcm_counterCrypt.simps) simp
    have lx: "length ?x = min (length data) 16"
      by (simp add: length_word_bytes)
    have ne: "?x @ ?r \<noteq> []"
      using False lx by (cases data) auto
    have short: "?r = []" if "\<not> 16 \<le> length data"
      using that by (simp add: gcm_counterCrypt.simps)
    have tk: "take 16 (?x @ ?r) = ?x"
      using lx short by (cases "16 \<le> length data") simp_all
    have dr: "drop 16 (?x @ ?r) = ?r"
      using lx short by (cases "16 \<le> length data") simp_all
    have "gcm_counterCrypt blk ctr (?x @ ?r)
            = map2 (XOR) ?x ?ks @ gcm_counterCrypt blk (gcm_inc32 ctr) ?r"
      using ne by (subst gcm_counterCrypt.simps) (simp only: tk dr if_False)
    also have "map2 (XOR) ?x ?ks = take 16 data"
      by (rule map2_xor_cancel) (simp add: length_word_bytes)
    also have "gcm_counterCrypt blk (gcm_inc32 ctr) ?r = drop 16 data"
      using 1 False by simp
    finally show ?thesis
      by (simp add: out)
  qed
qed

lemma length_gcm_auth: "length (gcm_auth blk nonce ct aad) = 16"
  by (simp add: gcm_auth_def length_word_bytes)

lemma gcm_Open_append:
  assumes "length nonce = gcm_NonceSize" and "length ct \<le> gcm_MaxPlaintext"
    and "length tag = gcm_TagSize"
  shows "gcm_Open blk [] nonce (ct @ tag) aad =
           (if gcm_auth blk nonce ct aad \<noteq> tag then Inl MessageAuthenticationFailed
            else Inr (gcm_counterCrypt blk (gcm_inc32 (gcm_counter0 nonce)) ct))"
  using assms by (simp add: gcm_Open_def Let_def)

lemma gcm_Open_Seal:
  assumes "gcm_Seal blk dst nonce plaintext aad = Inr sealed"
  shows "gcm_Open blk [] nonce (drop (length dst) sealed) aad = Inr plaintext"
proof -
  let ?ct = "gcm_counterCrypt blk (gcm_inc32 (gcm_counter0 nonce)) plaintext"
  let ?tag = "gcm_auth blk nonce ?ct aad"
  from assms have n: "length nonce = gcm_NonceSize" and m: "length plaintext \<le> gcm_MaxPlaintext"
    and s: "sealed = dst @ ?ct @ ?tag"
    by (auto simp: gcm_Seal_def Let_def split: if_splits)
  have "gcm_Open blk [] nonce (?ct @ ?tag) aad = Inr plaintext"
    using n m
    by (subst gcm_Open_append)
      (simp_all add: length_gcm_counterCrypt length_gcm_auth gcm_TagSize_def
        gcm_counterCrypt_involution)
  then show ?thesis
    by (simp add: s)
qed

section \<open>Properties of package \<^verbatim>\<open>crypto\<close>\<close>

lemma encrypt_decrypt:
  assumes "encrypt P data key ent = (Inr sealed, ent')"
  shows "decrypt P sealed key = Inr data"
proof -
  from assms obtain block where b: "aes_NewCipher P key = Inr block"
    by (auto simp: encrypt_def split: sum.splits)
  from assms b obtain nonce where r: "rand_Read gcm_NonceSize ent = (Inr nonce, ent')"
    and s: "gcm_Seal block nonce nonce data [] = Inr sealed"
    by (auto simp: encrypt_def split: sum.splits prod.splits)
  from r have n: "length nonce = gcm_NonceSize"
    by (auto simp: rand_Read_def split: if_splits)
  from s obtain rest where sealed: "sealed = nonce @ rest"
    by (auto simp: gcm_Seal_def Let_def split: if_splits)
  from gcm_Open_Seal [OF s] have "gcm_Open block [] nonce rest [] = Inr data"
    by (simp add: sealed)
  with n show ?thesis
    by (simp add: decrypt_def b sealed Let_def)
qed

lemma encrypt_succeeds:
  assumes "length key = 16 \<or> length key = 24 \<or> length key = 32"
    and "gcm_NonceSize \<le> length ent" and "length data \<le> gcm_MaxPlaintext"
  shows "\<exists>sealed. encrypt P data key ent = (Inr sealed, drop gcm_NonceSize ent)"
  using assms by (auto simp: encrypt_def aes_NewCipher_def rand_Read_def gcm_Seal_def Let_def)

lemma DeriveKeyFromPassword_eq:
  "DeriveKeyFromPassword P password email =
     Inr (pbkdf2_Key P (bytes_of password) (bytes_of (normalizeEmail email)) 100000 32)"
  by (simp add: DeriveKeyFromPassword_def Let_def)

lemma DeriveKeyFromPassword_length:
  "DeriveKeyFromPassword P password email = Inr masterKey \<Longrightarrow> length masterKey = 32"
  by (auto simp: DeriveKeyFromPassword_eq length_pbkdf2_Key)

lemma EncryptSymmetricKey_Inr:
  "EncryptSymmetricKey P k mk ent = (Inr sealed, ent') \<longleftrightarrow>
     (\<exists>raw. encrypt P k mk ent = (Inr raw, ent') \<and> sealed = b64_encode raw)"
  by (auto simp: EncryptSymmetricKey_def split: prod.splits sum.splits)

lemma EncryptData_Inr:
  "EncryptData P data k ent = (Inr sealed, ent') \<longleftrightarrow>
     data \<noteq> [] \<and> (\<exists>raw. encrypt P data k ent = (Inr raw, ent') \<and> sealed = b64_encode raw)"
  by (auto simp: EncryptData_def split: prod.splits sum.splits)

lemma DecryptSymmetricKey_encode:
  "DecryptSymmetricKey P (b64_encode raw) mk = decrypt P raw mk"
  by (simp add: DecryptSymmetricKey_def b64_decode_encode)

lemma DecryptData_encode: "DecryptData P (b64_encode raw) k = decrypt P raw k"
  by (simp add: DecryptData_def b64_decode_encode)

lemma gcm_Open_mismatch:
  "\<not> gcm_tag_matches blk nonce ciphertext aad \<Longrightarrow> \<exists>err. gcm_Open blk [] nonce ciphertext aad = Inl err"
  by (auto simp: gcm_Open_def gcm_tag_matches_def Let_def)

lemma gcm_Open_mismatch_error:
  "length nonce = gcm_NonceSize \<Longrightarrow> \<not> gcm_tag_matches blk nonce ciphertext aad
     \<Longrightarrow> gcm_Open blk [] nonce ciphertext aad = Inl MessageAuthenticationFailed"
  by (auto simp: gcm_Open_def gcm_tag_matches_def Let_def)

lemma encrypt_shape:
  assumes "encrypt P data key ent = (Inr sealed, ent')"
  shows "\<exists>nonce ct. length nonce = gcm_NonceSize \<and> length ct = length data
           \<and> sealed = nonce @ ct @ gcm_auth (aes_block P key) nonce ct []"
proof -
  from assms obtain block where b: "aes_NewCipher P key = Inr block"
    by (auto simp: encrypt_def split: sum.splits)
  then have blk: "block = aes_block P key"
    by (auto simp: aes_NewCipher_def split: if_splits)
  from assms b obtain nonce where r: "rand_Read gcm_NonceSize ent = (Inr nonce, ent')"
    and s: "gcm_Seal block nonce nonce data [] = Inr sealed"
    by (auto simp: encrypt_def split: sum.splits prod.splits)
  from r have n: "length nonce = gcm_NonceSize"
    by (auto simp: rand_Read_def split: if_splits)
  let ?ct = "gcm_counterCrypt (aes_block P key) (gcm_inc32 (gcm_counter0 nonce)) data"
  from s blk have "sealed = nonce @ ?ct @ gcm_auth (aes_block P key) nonce ?ct []"
    by (auto simp: gcm_Seal_def Let_def split: if_splits)
  with n show ?thesis
    by (intro exI [of _ nonce] exI [of _ ?ct]) (simp add: length_gcm_counterCrypt)
qed

lemma example_sealed_encrypt:
  "encrypt example_primitives (bytes_of ''T'') (replicate 32 7) (replicate 12 1)
     = (Inr example_sealed, [])"
proof -
  obtain sealed where "encrypt example_primitives (bytes_of ''T'') (replicate 32 7) (replicate 12 1)
      = (Inr sealed, drop gcm_NonceSize (replicate 12 1))"
    using encrypt_succeeds [of "replicate 32 7" "replicate 12 1" "bytes_of ''T''" example_primitives]
    by (auto simp: gcm_NonceSize_def gcm_MaxPlaintext_def length_bytes_of)
  then show ?thesis
    by (simp add: example_sealed_def gcm_NonceSize_def)
qed

lemma xor_one_neq: "(x :: byte) XOR 1 \<noteq> x"
proof
  assume "x XOR 1 = x"
  then have "x XOR (x XOR 1) = x XOR x"
    by simp
  then show False
    by (simp add: xor.assoc [symmetric])
qed

lemma example_tampered_mismatch:
  "length example_tampered = 29"
  "\<not> gcm_tag_matches (aes_block example_primitives (replicate 32 7))
       (take gcm_NonceSize example_tampered) (drop gcm_NonceSize example_tampered) []"
proof -
  let ?blk = "aes_block example_primitives (replicate 32 7)"
  from encrypt_shape [OF example_sealed_encrypt] obtain nonce ct where
    n: "length nonce = gcm_NonceSize" and c: "length ct = 1"
    and s: "example_sealed = nonce @ ct @ gcm_auth ?blk nonce ct []"
    by (auto simp: length_bytes_of)
  let ?tag = "gcm_auth ?blk nonce ct []"
  have tl: "length ?tag = 16"
    by (rule length_gcm_auth)
  then have tne: "?tag \<noteq> []"
    by auto
  let ?tag' = "butlast ?tag @ [last ?tag XOR 1]"
  have t: "example_tampered = nonce @ ct @ ?tag'"
    using tne by (simp add: example_tampered_def s butlast_append)
  have tl': "length ?tag' = 16"
    using tl by simp
  show "length example_tampered = 29"
    using n c tl' unfolding t by (simp add: gcm_NonceSize_def)
  have neq: "?tag \<noteq> ?tag'"
  proof
    assume "?tag = ?tag'"
    then have "last ?tag = last ?tag'"
      by simp
    then show False
      using xor_one_neq [of "last ?tag"] by simp
  qed
  have "take gcm_NonceSize example_tampered = nonce"
    and "drop gcm_NonceSize example_tampered = ct @ ?tag'"
    using n unfolding t by simp_all
  moreover have "take (length (ct @ ?tag') - gcm_TagSize) (ct @ ?tag') = ct"
    and "drop (length (ct @ ?tag') - gcm_TagSize) (ct @ ?tag') = ?tag'"
    using tl' c by (simp_all add: gcm_TagSize_def)
  ultimately show "\<not> gcm_tag_matches ?blk (take gcm_NonceSize example_tampered)
      (drop gcm_NonceSize example_tampered) []"
    using neq unfolding gcm_tag_matches_def by (simp only:) simp
qed

lemma pbkdf2_rounds_const:
  assumes "\<And>u :: 256 word. prf (word_bytes 32 u) = 0"
  shows "pbkdf2_rounds prf n u t = t"
  by (induction n arbitrary: u t) (simp_all add: Let_def assms)

lemma pbkdf2_Key_example:
  assumes "length salt \<noteq> 28"
  shows "pbkdf2_Key example_primitives password salt 100000 32
     = word_bytes 32 (bytes_word (password @ salt @ [0, 0, 0, 1]) :: 256 word)"
proof -
  let ?mac = "hmac_sha256 example_primitives password"
  have z: "?mac (word_bytes 32 u) = 0" for u :: "256 word"
    by (simp add: example_primitives_def length_word_bytes)
  have c: "word_bytes 4 (1 :: 32 word) = [0, 0, 0, 1]"
    by (simp add: word_bytes_def upt_rec)
  have u1: "?mac (salt @ word_bytes 4 (word_of_nat 1 :: 32 word))
      = bytes_word (password @ salt @ [0, 0, 0, 1])"
    using assms unfolding c by (simp add: example_primitives_def c)
  have "pbkdf2_block ?mac salt 100000 1
      = word_bytes 32 (bytes_word (password @ salt @ [0, 0, 0, 1]) :: 256 word)"
    unfolding pbkdf2_block_def Let_def u1 by (simp only: pbkdf2_rounds_const [of ?mac, OF z])
  then show ?thesis
    by (simp add: pbkdf2_Key_def length_word_bytes)
qed

lemma example_master_key_upper:
  "pbkdf2_Key example_primitives (bytes_of ''pw'') (bytes_of ''pastepal:A@x.com'') 100000 32 ! 21
     = 0x41"
  by (subst pbkdf2_Key_example)
    (simp_all add: word_bytes_def bytes_word_def bytes_of_def)

lemma example_master_key_lower:
  "pbkdf2_Key example_primitives (bytes_of ''pw'') (bytes_of ''pastepal:a@x.com'') 100000 32 ! 21
     = 0x61"
  by (subst pbkdf2_Key_example)
    (simp_all add: word_bytes_def bytes_word_def bytes_of_def)

section \<open>Key derivation\<close>

text \<open>
  Claim C3.  The salt of the master key is the fixed string \<open>pastepal:\<close> followed by the
  email exactly as given: \<^verbatim>\<open>normalizeEmail\<close> does not change the case of any letter, so for
  the email \<open>A@x.com\<close> the key is derived with the salt \<open>pastepal:A@x.com\<close>, which is
  not the salt of \<open>a@x.com\<close>; with the stand-in for HMAC the two derived keys differ.
\<close>

theorem normalizeEmail_keeps_case:
  "normalizeEmail ''A@x.com'' = ''pastepal:A@x.com''
   \<and> bytes_of (normalizeEmail ''A@x.com'') \<noteq> bytes_of (normalizeEmail ''a@x.com'')
   \<and> DeriveKeyFromPassword P password ''A@x.com''
       = Inr (pbkdf2_Key P (bytes_of password) (bytes_of ''pastepal:A@x.com'') 100000 32)
   \<and> DeriveKeyFromPassword example_primitives ''pw'' ''A@x.com''
       \<noteq> DeriveKeyFromPassword example_primitives ''pw'' ''a@x.com''"
proof -
  have "pbkdf2_Key example_primitives (bytes_of ''pw'') (bytes_of ''pastepal:A@x.com'') 100000 32
      \<noteq> pbkdf2_Key example_primitives (bytes_of ''pw'') (bytes_of ''pastepal:a@x.com'') 100000 32"
  proof
    assume "pbkdf2_Key example_primitives (bytes_of ''pw'') (bytes_of ''pastepal:A@x.com'') 100000 32
      = pbkdf2_Key example_primitives (bytes_of ''pw'') (bytes_of ''pastepal:a@x.com'') 100000 32"
    then have "(0x41 :: byte) = 0x61"
      using example_master_key_upper example_master_key_lower by simp
    then show False
      by simp
  qed
  then show ?thesis
    by (simp add: normalizeEmail_def DeriveKeyFromPassword_def) (simp add: bytes_of_def)
qed

section \<open>Envelope and content round trips\<close>

text \<open>
  Claim C4.  For every password, email and 32-byte content key \<open>k\<close>: whenever
  \<^verbatim>\<open>EncryptSymmetricKey\<close> seals \<open>k\<close> under the master key derived from the password and
  the email, \<^verbatim>\<open>DecryptSymmetricKey\<close> under the same master key returns exactly \<open>k\<close>; and
  the sealing does succeed whenever the entropy source delivers the 12 bytes of the nonce.
\<close>

theorem envelope_round_trip:
  assumes "length k = 32" and "DeriveKeyFromPassword P password email = Inr masterKey"
  shows "(\<forall>sealed ent'. EncryptSymmetricKey P k masterKey ent = (Inr sealed, ent')
            \<longrightarrow> DecryptSymmetricKey P sealed masterKey = Inr k)
       \<and> (12 \<le> length ent
            \<longrightarrow> (\<exists>sealed. EncryptSymmetricKey P k masterKey ent = (Inr sealed, drop 12 ent)))"
proof (intro conjI allI impI)
  fix sealed ent'
  assume "EncryptSymmetricKey P k masterKey ent = (Inr sealed, ent')"
  then obtain raw where "encrypt P k masterKey ent = (Inr raw, ent')" "sealed = b64_encode raw"
    by (auto simp: EncryptSymmetricKey_Inr)
  then show "DecryptSymmetricKey P sealed masterKey = Inr k"
    by (simp add: DecryptSymmetricKey_encode encrypt_decrypt)
next
  assume "12 \<le> length ent"
  moreover have "length masterKey = 32"
    using assms(2) by (rule DeriveKeyFromPassword_length)
  moreover have "length k \<le> gcm_MaxPlaintext"
    using assms(1) by (simp add: gcm_MaxPlaintext_def)
  ultimately obtain raw where "encrypt P k masterKey ent = (Inr raw, drop gcm_NonceSize ent)"
    using encrypt_succeeds [of masterKey ent k P] by (auto simp: gcm_NonceSize_def)
  then show "\<exists>sealed. EncryptSymmetricKey P k masterKey ent = (Inr sealed, drop 12 ent)"
    by (auto simp: EncryptSymmetricKey_Inr gcm_NonceSize_def)
qed

theorem envelope_round_trip_witness:
  "\<exists>masterKey sealed.
     DeriveKeyFromPassword example_primitives ''pw'' ''a@x.com'' = Inr masterKey
     \<and> EncryptSymmetricKey example_primitives (replicate 32 7) masterKey (replicate 12 1)
         = (Inr sealed, [])
     \<and> DecryptSymmetricKey example_primitives sealed masterKey = Inr (replicate 32 7)"
  using envelope_round_trip [of "replicate 32 7" example_primitives "''pw''" "''a@x.com''" _ "replicate 12 1"]
  by (simp add: DeriveKeyFromPassword_eq) blast

text \<open>
  Claim C5.  For every 32-byte key \<open>k\<close> and non-empty title and body: whenever
  \<^verbatim>\<open>EncryptData\<close> protects the two fields, one call each, \<^verbatim>\<open>DecryptData\<close> under \<open>k\<close>
  returns the bytes of the original title and body, which convert back to the original
  strings; and the two calls do succeed when the entropy source delivers 24 bytes and
  neither field exceeds the size limit of GCM.
\<close>

theorem content_round_trip:
  assumes "length k = 32" and "title \<noteq> []" and "content \<noteq> []"
  shows "(\<forall>encTitle encContent ent1 ent2.
            EncryptData P (bytes_of title) k ent = (Inr encTitle, ent1)
            \<and> EncryptData P (bytes_of content) k ent1 = (Inr encContent, ent2)
            \<longrightarrow> map_sum id string_of (DecryptData P encTitle k) = Inr title
                \<and> map_sum id string_of (DecryptData P encContent k) = Inr content)
       \<and> (24 \<le> length ent \<and> length title \<le> gcm_MaxPlaintext \<and> length content \<le> gcm_MaxPlaintext
            \<longrightarrow> (\<exists>encTitle encContent.
                   EncryptData P (bytes_of title) k ent = (Inr encTitle, drop 12 ent)
                   \<and> EncryptData P (bytes_of content) k (drop 12 ent)
                       = (Inr encContent, drop 24 ent)))"
proof (intro conjI allI impI)
  fix encTitle encContent ent1 ent2
  assume a: "EncryptData P (bytes_of title) k ent = (Inr encTitle, ent1)
             \<and> EncryptData P (bytes_of content) k ent1 = (Inr encContent, ent2)"
  then obtain rt rc where "encrypt P (bytes_of title) k ent = (Inr rt, ent1)" "encTitle = b64_encode rt"
    and "encrypt P (bytes_of content) k ent1 = (Inr rc, ent2)" "encContent = b64_encode rc"
    by (auto simp: EncryptData_Inr)
  then show "map_sum id string_of (DecryptData P encTitle k) = Inr title"
    and "map_sum id string_of (DecryptData P encContent k) = Inr content"
    by (simp_all add: DecryptData_encode encrypt_decrypt string_of_bytes_of)
next
  assume b: "24 \<le> length ent \<and> length title \<le> gcm_MaxPlaintext \<and> length content \<le> gcm_MaxPlaintext"
  have k: "length k = 16 \<or> length k = 24 \<or> length k = 32"
    using assms(1) by simp
  from b obtain rt where rt: "encrypt P (bytes_of title) k ent = (Inr rt, drop gcm_NonceSize ent)"
    using encrypt_succeeds [OF k, of ent "bytes_of title" P]
    by (auto simp: gcm_NonceSize_def length_bytes_of)
  have "gcm_NonceSize \<le> length (drop gcm_NonceSize ent)"
    and "length (bytes_of content) \<le> gcm_MaxPlaintext"
    using b by (auto simp: gcm_NonceSize_def length_bytes_of)
  from encrypt_succeeds [OF k this, of P]
  obtain rc where rc: "encrypt P (bytes_of content) k (drop gcm_NonceSize ent)
      = (Inr rc, drop gcm_NonceSize (drop gcm_NonceSize ent))"
    by blast
  from rt rc assms(2,3)
  show "\<exists>encTitle encContent.
          EncryptData P (bytes_of title) k ent = (Inr encTitle, drop 12 ent)
          \<and> EncryptData P (bytes_of content) k (drop 12 ent) = (Inr encContent, drop 24 ent)"
    by (simp add: EncryptData_Inr bytes_of_eq_Nil gcm_NonceSize_def)
qed

theorem content_round_trip_witness:
  "\<exists>encTitle encContent.
     EncryptData example_primitives (bytes_of ''T'') (replicate 32 7) (replicate 24 1)
       = (Inr encTitle, replicate 12 1)
     \<and> EncryptData example_primitives (bytes_of ''C'') (replicate 32 7) (replicate 12 1)
         = (Inr encContent, [])
     \<and> map_sum id string_of (DecryptData example_primitives encTitle (replicate 32 7)) = Inr ''T''
     \<and> map_sum id string_of (DecryptData example_primitives encContent (replicate 32 7)) = Inr ''C''"
proof -
  note t = content_round_trip [of "replicate 32 7" "''T''" "''C''" example_primitives "replicate 24 1"]
  have pre: "length (replicate 32 (7::byte)) = 32" "''T'' \<noteq> []" "''C'' \<noteq> []"
    by simp_all
  from t [OF pre] obtain encTitle encContent where
    e: "EncryptData example_primitives (bytes_of ''T'') (replicate 32 7) (replicate 24 1)
          = (Inr encTitle, drop 12 (replicate 24 1))"
       "EncryptData example_primitives (bytes_of ''C'') (replicate 32 7) (drop 12 (replicate 24 1))
          = (Inr encContent, drop 24 (replicate 24 1))"
    by (auto simp: gcm_MaxPlaintext_def)
  with t [OF pre] have
    "map_sum id string_of (DecryptData example_primitives encTitle (replicate 32 7)) = Inr ''T''"
    "map_sum id string_of (DecryptData example_primitives encContent (replicate 32 7)) = Inr ''C''"
    by blast+
  with e show ?thesis
    by (intro exI [of _ encTitle] exI [of _ encContent]) simp
qed

section \<open>Rejection of truncated and tampered input\<close>

text \<open>
  Claim C6.  For every key and every input of \<^verbatim>\<open>decrypt\<close>: if the input is shorter than
  the 12-byte nonce, or the tag at its end is not the tag computed over the ciphertext,
  \<^verbatim>\<open>decrypt\<close> returns an error and no plaintext: the key-size error when the key is
  not an AES key, else \<open>malformed ciphertext\<close> for the short input and the authentication
  failure for the tag.
\<close>

theorem decrypt_rejects:
  assumes "length data < gcm_NonceSize
           \<or> \<not> gcm_tag_matches (aes_block P key) (take gcm_NonceSize data) (drop gcm_NonceSize data) []"
  shows "decrypt P data key =
           Inl (if \<not> (length key = 16 \<or> length key = 24 \<or> length key = 32)
                  then KeySizeError (length key)
                else if length data < gcm_NonceSize then MalformedCiphertext
                else MessageAuthenticationFailed)"
proof (cases "length key = 16 \<or> length key = 24 \<or> length key = 32")
  case False
  then show ?thesis
    by (simp add: decrypt_def aes_NewCipher_def)
next
  case True
  then have b: "aes_NewCipher P key = Inr (aes_block P key)"
    by (auto simp: aes_NewCipher_def)
  show ?thesis
  proof (cases "length data < gcm_NonceSize")
    case True
    with b \<open>length key = 16 \<or> length key = 24 \<or> length key = 32\<close> show ?thesis
      by (simp add: decrypt_def)
  next
    case False
    with assms have
      "\<not> gcm_tag_matches (aes_block P key) (take gcm_NonceSize data) (drop gcm_NonceSize data) []"
      by blast
    moreover from False have "length (take gcm_NonceSize data) = gcm_NonceSize"
      by simp
    ultimately have "gcm_Open (aes_block P key) [] (take gcm_NonceSize data)
        (drop gcm_NonceSize data) [] = Inl MessageAuthenticationFailed"
      by (rule gcm_Open_mismatch_error [rotated])
    with b False \<open>length key = 16 \<or> length key = 24 \<or> length key = 32\<close> show ?thesis
      by (simp add: decrypt_def Let_def)
  qed
qed

theorem decrypt_rejects_witness:
  "decrypt example_primitives [1, 2, 3] (replicate 32 7) = Inl MalformedCiphertext
   \<and> decrypt example_primitives example_tampered (replicate 32 7) = Inl MessageAuthenticationFailed"
proof -
  have "length [1, 2, 3 :: byte] < gcm_NonceSize"
    by (simp add: gcm_NonceSize_def)
  then have "decrypt example_primitives [1, 2, 3] (replicate 32 7) = Inl MalformedCiphertext"
    using decrypt_rejects [of "[1, 2, 3]" example_primitives "replicate 32 7"]
    by (simp add: gcm_NonceSize_def)
  moreover have "decrypt example_primitives example_tampered (replicate 32 7)
      = Inl MessageAuthenticationFailed"
    using decrypt_rejects [of example_tampered example_primitives "replicate 32 7"]
      example_tampered_mismatch
    by (simp add: gcm_NonceSize_def)
  ultimately show ?thesis
    by simp
qed

section \<open>Empty input\<close>

text \<open>
  Claim C8.  For every key, \<^verbatim>\<open>EncryptData\<close> of the empty byte string returns the error
  \<open>no data to encrypt\<close>, no ciphertext, and reads no entropy; for every non-empty input
  it does not return that error.
\<close>

theorem EncryptData_empty_input:
  "EncryptData P [] key ent = (Inl NoDataToEncrypt, ent)
   \<and> (data \<noteq> [] \<longrightarrow> fst (EncryptData P data key ent) \<noteq> Inl NoDataToEncrypt)"
  by (auto simp: EncryptData_def encrypt_def aes_NewCipher_def rand_Read_def gcm_Seal_def Let_def
      split: prod.splits sum.splits if_splits)

theorem EncryptData_empty_input_witness:
  "EncryptData example_primitives [] (replicate 32 7) (replicate 12 1)
     = (Inl NoDataToEncrypt, replicate 12 1)
   \<and> fst (EncryptData example_primitives [84] (replicate 32 7) (replicate 12 1))
       \<noteq> Inl NoDataToEncrypt"
  using EncryptData_empty_input [of example_primitives "replicate 32 7" "replicate 12 1" "[84]"]
  by simp

section \<open>Properties of packages \<^verbatim>\<open>storage\<close>, \<^verbatim>\<open>api\<close> and \<^verbatim>\<open>auth\<close>\<close>

lemma filepath_Join2:
  "b \<noteq> [] \<Longrightarrow> filepath_Join [a, b] = (if a = [] then b else a @ CHR ''/'' # b)"
  by (simp add: filepath_Join_def)

lemma filepath_Join3:
  "b \<noteq> [] \<Longrightarrow> c \<noteq> [] \<Longrightarrow>
     filepath_Join [a, b, c] =
       (if a = [] then b @ CHR ''/'' # c else a @ CHR ''/'' # b @ CHR ''/'' # c)"
  by (simp add: filepath_Join_def)

lemma filepath_Join_nested:
  "b \<noteq> [] \<Longrightarrow> c \<noteq> [] \<Longrightarrow>
     filepath_Join [filepath_Join [a, b], c] = filepath_Join [a, b, c]"
  by (simp add: filepath_Join_def)

lemma ClearUserSession_cases:
  "ClearUserSession ls s = (None, s)
   \<or> ClearUserSession ls s = (Some (FsError (OpRemove (filepath_Join [basePath ls, ''users'', ''session.json'']))), s)
   \<or> ClearUserSession ls s = (None, s\<lparr>files := (files s)(filepath_Join [basePath ls, ''users'', ''session.json''] := None)\<rparr>)"
  by (simp add: ClearUserSession_def os_Remove_def Let_def)

lemma GetSavedCredentials_frame:
  assumes "files s' (filepath_Join [basePath ls, ''users'', ''credentials.json''])
             = files s (filepath_Join [basePath ls, ''users'', ''credentials.json''])"
    and "fs_fails s' = fs_fails s"
  shows "GetSavedCredentials ls s' = GetSavedCredentials ls s"
  using assms by (simp add: GetSavedCredentials_def os_ReadFile_def Let_def)

lemma session_path_neq_credentials_path:
  "filepath_Join [b, ''users'', ''session.json''] \<noteq> filepath_Join [b', ''users'', ''credentials.json'']"
proof
  assume "filepath_Join [b, ''users'', ''session.json''] = filepath_Join [b', ''users'', ''credentials.json'']"
  then have "rev (filepath_Join [b, ''users'', ''session.json''])
      = rev (filepath_Join [b', ''users'', ''credentials.json''])"
    by simp
  then show False
    by (simp add: filepath_Join3 split: if_splits)
qed

lemma json_string_keys:
  "json_string ''email'' = ''email''" "json_string ''passwordHash'' = ''passwordHash''"
  by (simp_all add: json_string_ascii)

lemma SaveCredentials_then_Get:
  assumes "SaveCredentials ls email passwordHash True s0 = (None, s)"
    and "\<not> fs_fails s (OpReadFile (filepath_Join [basePath ls, ''users'', ''credentials.json'']))"
  shows "GetSavedCredentials ls s = Inr (json_string email, json_string passwordHash)"
proof -
  from assms(1) have "files s (filepath_Join [basePath ls, ''users'', ''credentials.json''])
      = Some (File (json_Marshal_map [(''email'', email), (''passwordHash'', passwordHash)]))"
    by (auto simp: SaveCredentials_def os_MkdirAll_def os_WriteFile_def filepath_Join_nested
        Let_def split: prod.splits option.splits if_splits node.splits)
  with assms(2) show ?thesis
    by (simp add: GetSavedCredentials_def os_ReadFile_def json_Unmarshal_map_def
        json_Marshal_map_def json_string_keys)
qed

lemma SaveCredentials_invalid_byte:
  assumes "SaveCredentials ls [CHR 0xFF, CHR ''@'', CHR ''x''] passwordHash True s0 = (None, s)"
    and "\<not> fs_fails s (OpReadFile (filepath_Join [basePath ls, ''users'', ''credentials.json'']))"
  shows "GetSavedCredentials ls s
     = Inr ([CHR 0xEF, CHR 0xBF, CHR 0xBD, CHR ''@'', CHR ''x''], json_string passwordHash)"
  using SaveCredentials_then_Get [OF assms] by (simp add: json_string_invalid_byte)

lemma Client_Login_Inl:
  assumes "Client_Login c req s = (Inl err, c', s')"
  shows "c' = c"
    and "err = RequestError \<or> err = TransportError \<or> err = AuthenticationFailed
         \<or> err = BodyReadError \<or> err = ParseFailure \<or> err = MissingRequiredData"
  using assms
  by (auto simp: Client_Login_def http_NewRequest_def http_Do_def Let_def
      split: sum.splits prod.splits http_result.splits response_body.splits if_splits)

lemma Client_Login_Inr:
  assumes "Client_Login c req s = (Inr resp, c', s')"
  shows "UR_ID (Resp_User resp) \<noteq> []" and "Resp_EncryptedSymmetricKey resp \<noteq> []"
  using assms
  by (auto simp: Client_Login_def http_Do_def Let_def
      split: sum.splits prod.splits http_result.splits response_body.splits if_splits)

lemma HashPasswordForServer_eq:
  "HashPasswordForServer P password email =
     Inr (b64_encode (pbkdf2_Key P (bytes_of password) (bytes_of (''pastepal-auth:'' @ email)) 100000 32))"
  by (simp add: HashPasswordForServer_def Let_def)

lemma HashPasswordForServer_valid:
  "HashPasswordForServer P password email = Inr h \<Longrightarrow> utf8_valid h"
  by (auto simp: HashPasswordForServer_eq utf8_valid_ascii b64_encode_ascii)

lemma HashPasswordForServer_length:
  "HashPasswordForServer P password email = Inr h \<Longrightarrow> length (bytes_of h) = 44"
  by (auto simp: HashPasswordForServer_eq length_bytes_of length_b64_encode length_pbkdf2_Key)

lemma GenerateSymmetricKey_length:
  "GenerateSymmetricKey ent = (Inr key, ent') \<Longrightarrow> length key = 32"
  by (auto simp: GenerateSymmetricKey_def rand_Read_def split: if_splits)

lemma SaveUserSession_error:
  "SaveUserSession ls email key s = (Some err, s') \<Longrightarrow> \<exists>op. err = FsError op"
  by (auto simp: SaveUserSession_def os_MkdirAll_def os_WriteFile_def Let_def
      split: prod.splits option.splits if_splits node.splits)

lemma LoginUser_error:
  "LoginUser P email password esk = Inl err \<Longrightarrow> err = InvalidCredentialsOrCorruptedKey"
  by (auto simp: LoginUser_def DeriveKeyFromPassword_eq split: sum.splits)

lemma PrepareLoginRequest_eq:
  "PrepareLoginRequest P email password =
     Inr \<lparr>Req_Email = email,
          Req_PasswordHash = b64_encode (pbkdf2_Key P (bytes_of password)
            (bytes_of (''pastepal-auth:'' @ email)) 100000 32)\<rparr>"
  by (simp add: PrepareLoginRequest_def HashPasswordForServer_eq)

lemma EncryptData_hash_key_fails:
  assumes "HashPasswordForServer P password email = Inr h" and "data \<noteq> []"
  shows "EncryptData P' data (bytes_of h) ent = (Inl (KeySizeError 44), ent)"
  using assms HashPasswordForServer_length [OF assms(1)]
  by (simp add: EncryptData_def encrypt_def aes_NewCipher_def)

subsection \<open>The concrete inputs evaluated\<close>

lemma b64_encode_eq_Nil: "b64_encode bs = [] \<longleftrightarrow> bs = []"
  by (cases bs rule: b64_encode.cases) simp_all

lemma RegisterUser_LoginUser:
  assumes "44 \<le> length ent"
  shows "\<exists>reg. RegisterUser P email password ent = (Inr reg, drop 44 ent)
           \<and> Reg_Email reg = email
           \<and> HashPasswordForServer P password email = Inr (Reg_PasswordHash reg)
           \<and> Reg_EncryptedSymmetricKey reg \<noteq> []
           \<and> LoginUser P email password (Reg_EncryptedSymmetricKey reg) = Inr (take 32 ent)"
proof -
  let ?mk = "pbkdf2_Key P (bytes_of password) (bytes_of (normalizeEmail email)) 100000 32"
  have g: "GenerateSymmetricKey ent = (Inr (take 32 ent), drop 32 ent)"
    using assms by (simp add: GenerateSymmetricKey_def rand_Read_def)
  have "length ?mk = 16 \<or> length ?mk = 24 \<or> length ?mk = 32"
    by (simp add: length_pbkdf2_Key)
  moreover have "gcm_NonceSize \<le> length (drop 32 ent)"
    and "length (take 32 ent) \<le> gcm_MaxPlaintext"
    using assms by (simp_all add: gcm_NonceSize_def gcm_MaxPlaintext_def)
  ultimately obtain raw where
    e: "encrypt P (take 32 ent) ?mk (drop 32 ent) = (Inr raw, drop gcm_NonceSize (drop 32 ent))"
    using encrypt_succeeds by blast
  from encrypt_shape [OF e] have "raw \<noteq> []"
    by (auto simp: gcm_NonceSize_def)
  let ?reg = "\<lparr>Reg_Email = email,
               Reg_PasswordHash = b64_encode (pbkdf2_Key P (bytes_of password)
                 (bytes_of (''pastepal-auth:'' @ email)) 100000 32),
               Reg_EncryptedSymmetricKey = b64_encode raw\<rparr>"
  have "RegisterUser P email password ent = (Inr ?reg, drop 44 ent)"
    using g e
    by (simp add: RegisterUser_def DeriveKeyFromPassword_eq HashPasswordForServer_eq
        EncryptSymmetricKey_def gcm_NonceSize_def)
  moreover have "LoginUser P email password (b64_encode raw) = Inr (take 32 ent)"
    using encrypt_decrypt [OF e]
    by (simp add: LoginUser_def DeriveKeyFromPassword_eq DecryptSymmetricKey_encode)
  ultimately show ?thesis
    using \<open>raw \<noteq> []\<close>
    by (intro exI [of _ ?reg]) (simp add: HashPasswordForServer_eq b64_encode_eq_Nil)
qed

lemma example_registration_facts:
  "HashPasswordForServer example_primitives ''pw'' ''a@x.com''
     = Inr (Reg_PasswordHash example_registration)"
  "Reg_EncryptedSymmetricKey example_registration \<noteq> []"
  "LoginUser example_primitives ''a@x.com'' ''pw'' (Reg_EncryptedSymmetricKey example_registration)
     = Inr (replicate 32 1)"
proof -
  obtain reg where r: "RegisterUser example_primitives ''a@x.com'' ''pw'' (replicate 44 1)
      = (Inr reg, drop 44 (replicate 44 1))"
    and f: "HashPasswordForServer example_primitives ''pw'' ''a@x.com'' = Inr (Reg_PasswordHash reg)"
      "Reg_EncryptedSymmetricKey reg \<noteq> []"
      "LoginUser example_primitives ''a@x.com'' ''pw'' (Reg_EncryptedSymmetricKey reg)
         = Inr (take 32 (replicate 44 1))"
    using RegisterUser_LoginUser [of "replicate 44 1" example_primitives "''a@x.com''" "''pw''"]
    by auto
  from r have "example_registration = reg"
    by (simp add: example_registration_def)
  with f show
    "HashPasswordForServer example_primitives ''pw'' ''a@x.com''
       = Inr (Reg_PasswordHash example_registration)"
    "Reg_EncryptedSymmetricKey example_registration \<noteq> []"
    "LoginUser example_primitives ''a@x.com'' ''pw'' (Reg_EncryptedSymmetricKey example_registration)
       = Inr (replicate 32 1)"
    by simp_all
qed

lemma example_valid:
  "utf8_valid ''a@x.com''" "utf8_valid (Reg_PasswordHash example_registration)"
  using HashPasswordForServer_valid [OF example_registration_facts(1)]
  by (simp_all add: utf8_valid_ascii)

lemma example_json:
  "json_Marshal_map [(''email'', ''a@x.com'')] = JSONObject [(''email'', ''a@x.com'')]"
  "json_Marshal_map [(''email'', ''a@x.com''),
      (''passwordHash'', Reg_PasswordHash example_registration)]
     = JSONObject [(''email'', ''a@x.com''),
         (''passwordHash'', Reg_PasswordHash example_registration)]"
  by (simp_all add: json_Marshal_map_def json_string_keys json_string_valid example_valid)

lemma b64_decode_AAAA: "b64_decode ''AAAA'' = Inr [0, 0, 0]"
  by (simp add: b64_decode_def b64_value_def b64_alphabet_def b64_pad_def b64_octets_def)

lemma LoginUser_AAAA: "LoginUser P email password ''AAAA'' = Inl InvalidCredentialsOrCorruptedKey"
  by (simp add: LoginUser_def DeriveKeyFromPassword_eq DecryptSymmetricKey_def b64_decode_AAAA
      decrypt_def aes_NewCipher_def length_pbkdf2_Key gcm_NonceSize_def)

lemma Client_Login_example:
  assumes "http_do s = example_server esk" and "url_rejected s = example_no_url_rejected"
    and "esk \<noteq> []"
  shows "Client_Login c req s =
     (Inr (example_response esk), SetAuthToken c ''tok'',
      s\<lparr>http_sent := http_sent s @
            [\<lparr>req_method = ''POST'', req_url = BaseURL c @ ''/api/auth/login'',
              req_content_type = ''application/json'', req_authorization = [],
              req_body = LoginBody req\<rparr>]\<rparr>)"
  using assms
  by (simp add: Client_Login_def http_NewRequest_def http_Do_def
      example_server_def example_response_def example_no_url_rejected_def)

lemma Client_Login_example_empty:
  assumes "http_do s = example_server []" and "url_rejected s = example_no_url_rejected"
  shows "\<exists>s'. Client_Login c req s = (Inl MissingRequiredData, c, s')"
  using assms
  by (simp add: Client_Login_def http_NewRequest_def http_Do_def
      example_server_def example_response_def example_no_url_rejected_def)

lemma example_sys_simps:
  "http_do (example_sys esk fails) = example_server esk"
  "url_rejected (example_sys esk fails) = example_no_url_rejected"
  "fs_fails (example_sys esk fails) = fails"
  "files (example_sys esk fails) = Map.empty"
  by (simp_all add: example_sys_def)

lemma Login_example_corrupt:
  "fst (Login example_primitives ''a@x.com'' ''pw'' False (example_app, example_sys_corrupt))
     = Some InvalidCredentialsOrCorruptedKey"
  "fst (snd (Login example_primitives ''a@x.com'' ''pw'' False (example_app, example_sys_corrupt)))
     = example_app\<lparr>APIClient := \<lparr>BaseURL = ''http://localhost:8080'', AuthToken = ''tok''\<rparr>\<rparr>"
  by (simp_all add: Login_def PrepareLoginRequest_eq example_sys_corrupt_def
      Client_Login_example [where esk = "''AAAA''"] example_sys_simps
      example_response_def LoginUser_AAAA SetAuthToken_def example_app_def)

lemma Login_example_rejected:
  "fst (Login example_primitives ''a@x.com'' ''pw'' False (example_app, example_sys [] fs_never_fails))
     = Some MissingRequiredData"
  "fst (snd (Login example_primitives ''a@x.com'' ''pw'' False
      (example_app, example_sys [] fs_never_fails))) = example_app"
proof -
  obtain s' where "Client_Login (APIClient example_app)
      \<lparr>Req_Email = ''a@x.com'',
       Req_PasswordHash = b64_encode (pbkdf2_Key example_primitives (bytes_of ''pw'')
         (bytes_of (''pastepal-auth:'' @ ''a@x.com'')) 100000 32)\<rparr>
      (example_sys [] fs_never_fails) = (Inl MissingRequiredData, APIClient example_app, s')"
    using Client_Login_example_empty [OF example_sys_simps(1,2)] by blast
  then show
    "fst (Login example_primitives ''a@x.com'' ''pw'' False (example_app, example_sys [] fs_never_fails))
       = Some MissingRequiredData"
    "fst (snd (Login example_primitives ''a@x.com'' ''pw'' False
        (example_app, example_sys [] fs_never_fails))) = example_app"
    by (simp_all add: Login_def PrepareLoginRequest_eq)
qed

lemma Login_example_logged_in:
  "fst (Login example_primitives ''a@x.com'' ''pw'' False
      (example_app_logged_in, example_sys [] fs_never_fails)) = Some MissingRequiredData"
  "IsLoggedIn (fst (snd (Login example_primitives ''a@x.com'' ''pw'' False
      (example_app_logged_in, example_sys [] fs_never_fails))))"
proof -
  obtain s' where "Client_Login (APIClient example_app_logged_in)
      \<lparr>Req_Email = ''a@x.com'',
       Req_PasswordHash = b64_encode (pbkdf2_Key example_primitives (bytes_of ''pw'')
         (bytes_of (''pastepal-auth:'' @ ''a@x.com'')) 100000 32)\<rparr>
      (example_sys [] fs_never_fails)
      = (Inl MissingRequiredData, APIClient example_app_logged_in, s')"
    using Client_Login_example_empty [OF example_sys_simps(1,2)] by blast
  then show
    "fst (Login example_primitives ''a@x.com'' ''pw'' False
        (example_app_logged_in, example_sys [] fs_never_fails)) = Some MissingRequiredData"
    "IsLoggedIn (fst (snd (Login example_primitives ''a@x.com'' ''pw'' False
        (example_app_logged_in, example_sys [] fs_never_fails))))"
    by (simp_all add: Login_def PrepareLoginRequest_eq) (simp add: example_app_logged_in_def)
qed

lemma Login_example_readonly:
  "fst (Login example_primitives ''a@x.com'' ''pw'' False (example_app, example_sys_readonly))
     = Some (FsError (OpMkdirAll ''/home/u/.pastepal/users''))"
  "IsLoggedIn (fst (snd (Login example_primitives ''a@x.com'' ''pw'' False
      (example_app, example_sys_readonly))))"
  "SymmetricKey (fst (snd (Login example_primitives ''a@x.com'' ''pw'' False
      (example_app, example_sys_readonly)))) = Some (replicate 32 1)"
  by (simp_all add: Login_def PrepareLoginRequest_eq example_sys_readonly_def
      Client_Login_example [OF example_sys_simps(1,2) example_registration_facts(2)]
      example_sys_simps example_registration_facts
      example_response_def SetAuthToken_def example_app_def
      SaveUserSession_def os_MkdirAll_def filepath_Join2 fs_always_fails_def)

lemma example_sys_remembered_eq:
  "example_sys_remembered =
     (example_sys (Reg_EncryptedSymmetricKey example_registration) fs_never_fails)
       \<lparr>files := [''/home/u/.pastepal/users'' \<mapsto> Dir,
                  ''/home/u/.pastepal/users/credentials.json'' \<mapsto>
                    File (JSONObject [(''email'', ''a@x.com''),
                      (''passwordHash'', Reg_PasswordHash example_registration)])]\<rparr>"
  by (simp add: example_sys_remembered_def SaveCredentials_def os_MkdirAll_def os_WriteFile_def example_json
      filepath_Join2 example_sys_simps fs_never_fails_def example_app_def)

lemma GetSavedCredentials_example:
  "GetSavedCredentials (LocalStorage example_app) example_sys_remembered
     = Inr (''a@x.com'', Reg_PasswordHash example_registration)"
  by (simp add: example_sys_remembered_eq GetSavedCredentials_def os_ReadFile_def filepath_Join3
      example_sys_simps fs_never_fails_def example_app_def json_Unmarshal_map_def)

lemma AutoLogin_example:
  "fst (AutoLogin (example_app, example_sys_remembered))"
proof -
  have a: "http_do example_sys_remembered
             = example_server (Reg_EncryptedSymmetricKey example_registration)"
    and b: "url_rejected example_sys_remembered = example_no_url_rejected"
    by (simp_all add: example_sys_remembered_eq example_sys_simps)
  have l: "\<not> IsLoggedIn example_app"
    by (simp add: example_app_def)
  show ?thesis
    using l
    by (simp add: AutoLogin_def GetSavedCredentials_example
        Client_Login_example [OF a b example_registration_facts(2)]
        example_response_def SetAuthToken_def Let_def)
      (simp add: example_sys_remembered_eq SaveUserSession_def os_MkdirAll_def os_WriteFile_def example_json
        filepath_Join2 example_sys_simps fs_never_fails_def example_app_def)
qed

section \<open>Session operations\<close>

text \<open>
  Claim C1.  When \<^verbatim>\<open>AutoLogin\<close> is entered without an active session and returns true,
  it found saved credentials \<open>(email, passwordHash)\<close>, and the symmetric key it leaves in
  the session is \<^verbatim>\<open>[]byte(passwordHash)\<close>, the bytes of the stored string.  Whenever that
  string is an authentication hash computed by \<^verbatim>\<open>HashPasswordForServer\<close>, this key is
  none of the content keys that \<^verbatim>\<open>GenerateSymmetricKey\<close> returns at registration.
\<close>

theorem AutoLogin_installs_hash_as_key:
  assumes "\<not> IsLoggedIn app" and "AutoLogin (app, s) = (True, app', s')"
  shows "\<exists>email passwordHash.
           GetSavedCredentials (LocalStorage app) s = Inr (email, passwordHash)
           \<and> IsLoggedIn app'
           \<and> SymmetricKey app' = Some (bytes_of passwordHash)
           \<and> (\<forall>P password e ent key ent'.
                 HashPasswordForServer P password e = Inr passwordHash
                 \<and> GenerateSymmetricKey ent = (Inr key, ent')
                 \<longrightarrow> bytes_of passwordHash \<noteq> key)"
proof -
  from assms obtain email passwordHash where
    g: "GetSavedCredentials (LocalStorage app) s = Inr (email, passwordHash)"
    by (auto simp: AutoLogin_def split: sum.splits)
  from assms g have "IsLoggedIn app'" and "SymmetricKey app' = Some (bytes_of passwordHash)"
    by (auto simp: AutoLogin_def Let_def split: sum.splits prod.splits if_splits option.splits)
  moreover have "bytes_of passwordHash \<noteq> key"
    if "HashPasswordForServer P password e = Inr passwordHash"
      and "GenerateSymmetricKey ent = (Inr key, ent')" for P password e ent key ent'
    using HashPasswordForServer_length [OF that(1)] GenerateSymmetricKey_length [OF that(2)]
    by auto
  ultimately show ?thesis
    using g by blast
qed

theorem AutoLogin_installs_hash_as_key_witness:
  "\<not> IsLoggedIn example_app
   \<and> fst (AutoLogin (example_app, example_sys_remembered))
   \<and> GetSavedCredentials (LocalStorage example_app) example_sys_remembered
       = Inr (''a@x.com'', Reg_PasswordHash example_registration)
   \<and> SymmetricKey (fst (snd (AutoLogin (example_app, example_sys_remembered))))
       = Some (bytes_of (Reg_PasswordHash example_registration))
   \<and> HashPasswordForServer example_primitives ''pw'' ''a@x.com''
       = Inr (Reg_PasswordHash example_registration)
   \<and> GenerateSymmetricKey (replicate 44 1) = (Inr (replicate 32 1), replicate 12 1)
   \<and> bytes_of (Reg_PasswordHash example_registration) \<noteq> replicate 32 1"
proof -
  have l: "\<not> IsLoggedIn example_app"
    by (simp add: example_app_def)
  let ?r = "AutoLogin (example_app, example_sys_remembered)"
  have e: "?r = (True, fst (snd ?r), snd (snd ?r))"
    using AutoLogin_example by (metis prod.collapse)
  have g: "GenerateSymmetricKey (replicate 44 1) = (Inr (replicate 32 (1::byte)), replicate 12 1)"
    by (simp add: GenerateSymmetricKey_def rand_Read_def)
  from AutoLogin_installs_hash_as_key [OF l e] obtain email passwordHash where
    c: "GetSavedCredentials (LocalStorage example_app) example_sys_remembered
          = Inr (email, passwordHash)"
    and k: "SymmetricKey (fst (snd ?r)) = Some (bytes_of passwordHash)"
    and n: "\<forall>P password e ent key ent'.
              HashPasswordForServer P password e = Inr passwordHash
              \<and> GenerateSymmetricKey ent = (Inr key, ent')
              \<longrightarrow> bytes_of passwordHash \<noteq> key"
    by blast
  from c have h: "passwordHash = Reg_PasswordHash example_registration"
    by (simp add: GetSavedCredentials_example)
  from n h example_registration_facts(1) g
  have "bytes_of (Reg_PasswordHash example_registration) \<noteq> replicate 32 1"
    by blast
  with l AutoLogin_example k h g example_registration_facts(1) show ?thesis
    by (simp add: GetSavedCredentials_example)
qed

text \<open>
  Claim C2, as stated, does not hold.  The application starts logged out with no token,
  and the server accepts the login and sends the token \<open>tok\<close>.  When the sealed key it
  sends cannot be opened, \<^verbatim>\<open>Login\<close> returns its error and the API client keeps the
  token.  When the sealed key opens and the session file cannot be written, \<^verbatim>\<open>Login\<close>
  returns the file system's error with the session already installed.  And when the
  application is logged in already and the server's answer lacks the sealed key,
  \<^verbatim>\<open>Login\<close> returns its error and the application stays logged in.
\<close>

theorem Login_failure_counterexample:
  "\<not> IsLoggedIn example_app \<and> AuthToken (APIClient example_app) = []
   \<and> fst (Login example_primitives ''a@x.com'' ''pw'' False (example_app, example_sys_corrupt))
       = Some InvalidCredentialsOrCorruptedKey
   \<and> AuthToken (APIClient (fst (snd (Login example_primitives ''a@x.com'' ''pw'' False
         (example_app, example_sys_corrupt))))) = ''tok''
   \<and> fst (Login example_primitives ''a@x.com'' ''pw'' False (example_app, example_sys_readonly))
       = Some (FsError (OpMkdirAll ''/home/u/.pastepal/users''))
   \<and> IsLoggedIn (fst (snd (Login example_primitives ''a@x.com'' ''pw'' False
         (example_app, example_sys_readonly))))
   \<and> SymmetricKey (fst (snd (Login example_primitives ''a@x.com'' ''pw'' False
         (example_app, example_sys_readonly)))) = Some (replicate 32 1)
   \<and> fst (Login example_primitives ''a@x.com'' ''pw'' False
         (example_app_logged_in, example_sys [] fs_never_fails)) = Some MissingRequiredData
   \<and> IsLoggedIn (fst (snd (Login example_primitives ''a@x.com'' ''pw'' False
         (example_app_logged_in, example_sys [] fs_never_fails))))"
  by (simp add: Login_example_corrupt Login_example_readonly Login_example_logged_in)
    (simp add: example_app_def)

text \<open>
  Claim C2, amended.  If \<^verbatim>\<open>Login\<close> is called while logged out (not logged in, no
  symmetric key, no current user) and fails with an error that does not come from the
  file system, then on return the application is still not logged in, holds no
  symmetric key and no current user; and unless the error is the envelope-open failure,
  the whole application state, the API client's token included, is unchanged.
\<close>

theorem Login_failure_leaves_logged_out:
  assumes "\<not> IsLoggedIn app" and "SymmetricKey app = None" and "CurrentUser app = None"
    and "Login P email password rememberMe (app, s) = (Some err, app', s')"
    and "\<forall>op. err \<noteq> FsError op"
  shows "\<not> IsLoggedIn app' \<and> SymmetricKey app' = None \<and> CurrentUser app' = None
         \<and> (err \<noteq> InvalidCredentialsOrCorruptedKey \<longrightarrow> app' = app)"
proof -
  obtain loginReq where p: "PrepareLoginRequest P email password = Inr loginReq"
    by (simp add: PrepareLoginRequest_eq)
  obtain r c1 s1 where cl: "Client_Login (APIClient app) loginReq s = (r, c1, s1)"
    by (cases "Client_Login (APIClient app) loginReq s") auto
  show ?thesis
  proof (cases r)
    case (Inl e)
    with cl have "c1 = APIClient app"
      using Client_Login_Inl(1) by blast
    with assms(4) p cl Inl have "app' = app"
      by (simp add: Login_def)
    with assms(1-3) show ?thesis
      by simp
  next
    case (Inr loginResp)
    with cl have id: "UR_ID (Resp_User loginResp) \<noteq> []"
      and k: "Resp_EncryptedSymmetricKey loginResp \<noteq> []"
      using Client_Login_Inr by blast+
    let ?app2 = "if Resp_AuthToken loginResp \<noteq> []
                 then app\<lparr>APIClient := SetAuthToken c1 (Resp_AuthToken loginResp)\<rparr>
                 else app\<lparr>APIClient := c1\<rparr>"
    show ?thesis
    proof (cases "LoginUser P email password (Resp_EncryptedSymmetricKey loginResp)")
      case (Inl e)
      with assms(4) p cl Inr id k have "app' = ?app2" and "err = e"
        by (auto simp: Login_def Let_def)
      with assms(1-3) LoginUser_error [OF Inl] show ?thesis
        by simp
    next
      case (Inr symmetricKey)
      with assms(4) p cl \<open>r = Inr loginResp\<close> id k
      have "\<exists>ls ss. SaveUserSession ls email symmetricKey s1 = (Some err, ss)"
        by (auto simp: Login_def Let_def split: prod.splits option.splits if_splits)
      with SaveUserSession_error assms(5) show ?thesis
        by blast
    qed
  qed
qed

theorem Login_failure_leaves_logged_out_witness:
  "fst (Login example_primitives ''a@x.com'' ''pw'' False (example_app, example_sys_corrupt))
     = Some InvalidCredentialsOrCorruptedKey
   \<and> \<not> IsLoggedIn (fst (snd (Login example_primitives ''a@x.com'' ''pw'' False
         (example_app, example_sys_corrupt))))
   \<and> SymmetricKey (fst (snd (Login example_primitives ''a@x.com'' ''pw'' False
         (example_app, example_sys_corrupt)))) = None
   \<and> CurrentUser (fst (snd (Login example_primitives ''a@x.com'' ''pw'' False
         (example_app, example_sys_corrupt)))) = None
   \<and> fst (Login example_primitives ''a@x.com'' ''pw'' False
         (example_app, example_sys [] fs_never_fails)) = Some MissingRequiredData
   \<and> fst (snd (Login example_primitives ''a@x.com'' ''pw'' False
         (example_app, example_sys [] fs_never_fails))) = example_app"
proof -
  have pre: "\<not> IsLoggedIn example_app" "SymmetricKey example_app = None"
    "CurrentUser example_app = None"
    by (simp_all add: example_app_def)
  let ?r1 = "Login example_primitives ''a@x.com'' ''pw'' False (example_app, example_sys_corrupt)"
  let ?r2 = "Login example_primitives ''a@x.com'' ''pw'' False
      (example_app, example_sys [] fs_never_fails)"
  have e1: "?r1 = (Some InvalidCredentialsOrCorruptedKey, fst (snd ?r1), snd (snd ?r1))"
    using Login_example_corrupt(1) by (metis prod.collapse)
  have e2: "?r2 = (Some MissingRequiredData, fst (snd ?r2), snd (snd ?r2))"
    using Login_example_rejected(1) by (metis prod.collapse)
  from Login_failure_leaves_logged_out [OF pre e1]
  have "\<not> IsLoggedIn (fst (snd ?r1)) \<and> SymmetricKey (fst (snd ?r1)) = None
      \<and> CurrentUser (fst (snd ?r1)) = None"
    by simp
  moreover from Login_failure_leaves_logged_out [OF pre e2]
  have "fst (snd ?r2) = example_app"
    by simp
  ultimately show ?thesis
    using Login_example_corrupt(1) Login_example_rejected(1) by simp
qed

text \<open>
  Claim C7.  For every title, content and flags, \<^verbatim>\<open>CreatePaste\<close> called while
  \<^verbatim>\<open>IsLoggedIn\<close> is false returns the error \<open>not logged in\<close> and leaves the application
  state, the API client and the whole environment as they were: no request is sent, no
  entropy is read and no file is written.
\<close>

theorem CreatePaste_not_logged_in:
  assumes "\<not> IsLoggedIn app"
  shows "CreatePaste P title content isPublic expiresAt maxAccessCount (app, s)
           = (Inl NotLoggedIn, app, s)"
  using assms by (simp add: CreatePaste_def)

theorem CreatePaste_not_logged_in_witness:
  "\<not> IsLoggedIn example_app
   \<and> CreatePaste example_primitives ''T'' ''C'' False 0 0 (example_app, example_sys [] fs_never_fails)
       = (Inl NotLoggedIn, example_app, example_sys [] fs_never_fails)"
proof -
  have h: "\<not> IsLoggedIn example_app"
    by (simp add: example_app_def)
  show ?thesis
    using h CreatePaste_not_logged_in [OF h] by simp
qed

text \<open>
  Claim C9.  For every application state and environment, after \<^verbatim>\<open>Logout\<close>, whatever
  it returns, \<^verbatim>\<open>CurrentUser\<close> is nil, \<^verbatim>\<open>SymmetricKey\<close> is nil, \<^verbatim>\<open>IsLoggedIn\<close> is false
  and the API client's token is the empty string.
\<close>

theorem Logout_clears_session:
  "(case Logout (app, s) of (err, app', s') \<Rightarrow>
      CurrentUser app' = None \<and> SymmetricKey app' = None \<and> \<not> IsLoggedIn app'
      \<and> AuthToken (APIClient app') = [])"
  by (simp add: Logout_def Let_def SetAuthToken_def split: prod.splits)

theorem Logout_clears_session_witness:
  "fst (Logout (example_app_logged_in, example_sys_stuck))
     = Some (FsError (OpRemove ''/home/u/.pastepal/users/session.json''))
   \<and> IsLoggedIn example_app_logged_in
   \<and> CurrentUser (fst (snd (Logout (example_app_logged_in, example_sys_stuck)))) = None
   \<and> SymmetricKey (fst (snd (Logout (example_app_logged_in, example_sys_stuck)))) = None
   \<and> \<not> IsLoggedIn (fst (snd (Logout (example_app_logged_in, example_sys_stuck))))
   \<and> AuthToken (APIClient (fst (snd (Logout (example_app_logged_in, example_sys_stuck))))) = []"
proof -
  have st: "example_sys_stuck =
      (example_sys ''AAAA'' fs_remove_fails)
        \<lparr>files := [''/home/u/.pastepal/users'' \<mapsto> Dir,
                   ''/home/u/.pastepal/users/session.json'' \<mapsto>
                     File (JSONObject [(''email'', ''a@x.com'')])]\<rparr>"
    by (simp add: example_sys_stuck_def SaveUserSession_def os_MkdirAll_def os_WriteFile_def example_json
        filepath_Join2 example_sys_simps fs_remove_fails_def example_app_def)
  have "fst (Logout (example_app_logged_in, example_sys_stuck))
      = Some (FsError (OpRemove ''/home/u/.pastepal/users/session.json''))"
    by (simp add: st Logout_def ClearUserSession_def os_Stat_def os_Remove_def filepath_Join3
        example_sys_simps fs_remove_fails_def example_app_logged_in_def example_app_def Let_def
        split: prod.splits)
  moreover have "IsLoggedIn example_app_logged_in"
    by (simp add: example_app_logged_in_def)
  ultimately show ?thesis
    using Logout_clears_session [of example_app_logged_in example_sys_stuck]
    by (simp add: case_prod_beta)
qed

text \<open>
  Claim C10.  \<^verbatim>\<open>Logout\<close> leaves the local storage handle as it is, leaves what
  \<^verbatim>\<open>GetSavedCredentials\<close> returns as it is, and changes nothing in the environment
  except that it may remove the session file.  In particular, when \<^verbatim>\<open>SaveCredentials\<close>
  with \<^verbatim>\<open>rememberMe\<close> true stored a pair in a credentials file that can be read,
  \<^verbatim>\<open>GetSavedCredentials\<close> after \<^verbatim>\<open>Logout\<close> still returns the pair as \<^verbatim>\<open>json.Marshal\<close>
  stored it, and that is the pair given to \<^verbatim>\<open>SaveCredentials\<close> whenever both strings
  are valid UTF-8.
\<close>

theorem Logout_keeps_saved_credentials:
  assumes "Logout (app, s) = (err, app', s')"
  shows "LocalStorage app' = LocalStorage app
       \<and> GetSavedCredentials (LocalStorage app') s' = GetSavedCredentials (LocalStorage app) s
       \<and> (s' = s
           \<or> s' = s\<lparr>files := (files s)
                   (filepath_Join [basePath (LocalStorage app), ''users'', ''session.json'']
                      := None)\<rparr>)
       \<and> (\<forall>email passwordHash s0.
             SaveCredentials (LocalStorage app) email passwordHash True s0 = (None, s)
             \<and> \<not> fs_fails s (OpReadFile
                   (filepath_Join [basePath (LocalStorage app), ''users'', ''credentials.json'']))
             \<longrightarrow> GetSavedCredentials (LocalStorage app') s'
                   = Inr (json_string email, json_string passwordHash)
                 \<and> (utf8_valid email \<and> utf8_valid passwordHash
                      \<longrightarrow> GetSavedCredentials (LocalStorage app') s'
                            = Inr (email, passwordHash)))"
proof -
  let ?ls = "LocalStorage app"
  let ?sp = "filepath_Join [basePath ?ls, ''users'', ''session.json'']"
  from assms have ls: "LocalStorage app' = ?ls" and c: "ClearUserSession ?ls s = (err, s')"
    by (auto simp: Logout_def Let_def split: prod.splits)
  from c ClearUserSession_cases [of ?ls s]
  have fr: "s' = s \<or> s' = s\<lparr>files := (files s)(?sp := None)\<rparr>"
    by auto
  then have g: "GetSavedCredentials ?ls s' = GetSavedCredentials ?ls s"
  proof
    assume "s' = s"
    then show ?thesis by simp
  next
    assume "s' = s\<lparr>files := (files s)(?sp := None)\<rparr>"
    then show ?thesis
      using session_path_neq_credentials_path [of "basePath ?ls" "basePath ?ls"]
      by (intro GetSavedCredentials_frame) simp_all
  qed
  have "GetSavedCredentials ?ls s' = Inr (json_string email, json_string passwordHash)"
    if "SaveCredentials ?ls email passwordHash True s0 = (None, s)"
      and "\<not> fs_fails s (OpReadFile
        (filepath_Join [basePath ?ls, ''users'', ''credentials.json'']))"
    for email passwordHash s0
    using SaveCredentials_then_Get [OF that] g by simp
  then show ?thesis
    using ls fr g by (auto simp: json_string_valid)
qed

theorem Logout_keeps_saved_credentials_witness:
  "SaveCredentials (LocalStorage example_app) ''a@x.com'' (Reg_PasswordHash example_registration)
     True (example_sys (Reg_EncryptedSymmetricKey example_registration) fs_never_fails)
     = (None, example_sys_remembered)
   \<and> GetSavedCredentials (LocalStorage example_app)
       (snd (snd (Logout (example_app_logged_in, example_sys_remembered))))
       = Inr (''a@x.com'', Reg_PasswordHash example_registration)
   \<and> files example_sys_session ''/home/u/.pastepal/users/session.json''
       = Some (File (JSONObject [(''email'', ''a@x.com'')]))
   \<and> files (snd (snd (Logout (example_app_logged_in, example_sys_session))))
       ''/home/u/.pastepal/users/session.json'' = None
   \<and> GetSavedCredentials (LocalStorage example_app)
       (snd (snd (Logout (example_app_logged_in, example_sys_session))))
       = Inr (''a@x.com'', Reg_PasswordHash example_registration)"
proof -
  let ?ls = "LocalStorage example_app"
  let ?h = "Reg_PasswordHash example_registration"
  have ls: "LocalStorage example_app_logged_in = ?ls"
    by (simp add: example_app_logged_in_def)
  have sv: "SaveCredentials ?ls ''a@x.com'' ?h True
      (example_sys (Reg_EncryptedSymmetricKey example_registration) fs_never_fails)
      = (None, example_sys_remembered)"
    unfolding example_sys_remembered_eq
    by (simp add: SaveCredentials_def os_MkdirAll_def os_WriteFile_def example_json
        filepath_Join2 example_sys_simps fs_never_fails_def example_app_def)
  have rd: "\<not> fs_fails example_sys_remembered (OpReadFile
      (filepath_Join [basePath ?ls, ''users'', ''credentials.json'']))"
    by (simp add: example_sys_remembered_eq example_sys_simps fs_never_fails_def)
  let ?r1 = "Logout (example_app_logged_in, example_sys_remembered)"
  have e1: "?r1 = (fst ?r1, fst (snd ?r1), snd (snd ?r1))"
    by simp
  from Logout_keeps_saved_credentials [OF e1] sv rd example_valid
  have g1: "GetSavedCredentials ?ls (snd (snd ?r1)) = Inr (''a@x.com'', ?h)"
    unfolding ls by metis
  have ss: "example_sys_session =
      (example_sys (Reg_EncryptedSymmetricKey example_registration) fs_never_fails)
        \<lparr>files := [''/home/u/.pastepal/users/credentials.json'' \<mapsto>
                     File (JSONObject [(''email'', ''a@x.com''), (''passwordHash'', ?h)]),
                   ''/home/u/.pastepal/users'' \<mapsto> Dir,
                   ''/home/u/.pastepal/users/session.json'' \<mapsto>
                     File (JSONObject [(''email'', ''a@x.com'')])]\<rparr>"
    by (simp add: example_sys_session_def SaveUserSession_def os_MkdirAll_def os_WriteFile_def example_json
        filepath_Join2 example_sys_remembered_eq example_sys_simps fs_never_fails_def
        example_app_def)
  have f0: "files example_sys_session ''/home/u/.pastepal/users/session.json''
      = Some (File (JSONObject [(''email'', ''a@x.com'')]))"
    by (simp add: ss)
  have g0: "GetSavedCredentials ?ls example_sys_session = Inr (''a@x.com'', ?h)"
    by (simp add: ss GetSavedCredentials_def os_ReadFile_def filepath_Join3 example_app_def
        example_sys_simps fs_never_fails_def json_Unmarshal_map_def)
  let ?r2 = "Logout (example_app_logged_in, example_sys_session)"
  have e2: "?r2 = (fst ?r2, fst (snd ?r2), snd (snd ?r2))"
    by simp
  from Logout_keeps_saved_credentials [OF e2] g0
  have g2: "GetSavedCredentials ?ls (snd (snd ?r2)) = Inr (''a@x.com'', ?h)"
    unfolding ls by metis
  have f2: "files (snd (snd ?r2)) ''/home/u/.pastepal/users/session.json'' = None"
    by (simp add: Logout_def ClearUserSession_def os_Stat_def os_Remove_def filepath_Join3
        ss example_sys_simps fs_never_fails_def
        example_app_logged_in_def example_app_def Let_def split: prod.splits)
  from sv g1 f0 f2 g2 show ?thesis
    by simp
qed

end
